theory Spec2Isabelle
  imports Complex_Main "HOL-Library.Word" "HOL-Library.Signed_Division" "HOL-Library.Monad_Syntax"
begin

unbundle bit_operations_syntax

section \<open>Numbers and arrays of the source language\<close>

text \<open>
  The program is JavaScript. Its numbers are modelled as mathematical numbers: \<open>real\<close>
  for coordinates, seeds and velocities, \<open>int\<close> for the integer-valued table entries and
  indices. Rounding of IEEE double arithmetic is outside this model; every operation is
  the exact one (\<open>Math.floor\<close> is \<open>floor\<close>, \<open>Math.ceil\<close> is \<open>ceiling\<close>).

  \<open>a % n\<close> is the remainder of truncated division (the sign follows the dividend).
\<close>

definition trunc :: "real \<Rightarrow> int" where
  "trunc r = (if 0 \<le> r then \<lfloor>r\<rfloor> else \<lceil>r\<rceil>)"

definition js_rem :: "real \<Rightarrow> real \<Rightarrow> real" where
  "js_rem a n = a - n * of_int (trunc (a / n))"

text \<open>
  \<open>Math.floor(x) & 255\<close>: the bitwise operator converts its left operand to a signed
  32-bit integer (modulo \<open>2^32\<close>) before the conjunction.
\<close>

definition floor_and_255 :: "real \<Rightarrow> int" where
  "floor_and_255 x = sint ((word_of_int \<lfloor>x\<rfloor> :: 32 word) AND 255)"

text \<open>
  An array allocated with \<open>new Array(n)\<close> is a list of \<open>n\<close> slots, each \<open>None\<close>
  (\<open>undefined\<close>) until assigned. Reading outside the array gives \<open>undefined\<close> as well.
  A literal array is a plain list.
\<close>

definition arr_get :: "'a option list \<Rightarrow> int \<Rightarrow> 'a option" where
  "arr_get xs i = (if 0 \<le> i \<and> i < int (length xs) then xs ! nat i else None)"

definition list_get :: "'a list \<Rightarrow> int \<Rightarrow> 'a option" where
  "list_get xs i = (if 0 \<le> i \<and> i < int (length xs) then Some (xs ! nat i) else None)"

section \<open>The noise generator (class Noise)\<close>

text \<open>
  \<open>this.p\<close> starts as the empty array \<open>[]\<close> and is written by index; it is modelled as a
  map from indices to values, so that a write at any index (also a negative one, which
  JavaScript stores as a property) and a later read of it are what the source does.
\<close>

record Noise =
  grad3 :: "(int \<times> int \<times> int) list"
  noise_p :: "int \<rightharpoonup> int"
  perm :: "int option list"
  permMod12 :: "int option list"

definition grad3_table :: "(int \<times> int \<times> int) list" where
  "grad3_table =
     [(1,1,0), (-1,1,0), (1,-1,0), (-1,-1,0),
      (1,0,1), (-1,0,1), (1,0,-1), (-1,0,-1),
      (0,1,1), (0,-1,1), (0,1,-1), (0,-1,-1)]"

text \<open>First loop of the constructor: \<open>for (i = 0; i < 256; i++)\<close>.\<close>

function fill_loop :: "nat \<Rightarrow> real \<Rightarrow> (int \<rightharpoonup> int) \<Rightarrow> real \<times> (int \<rightharpoonup> int)" where
  "fill_loop i seed p =
     (if i < 256
      then fill_loop (i + 1) (js_rem (seed * 16807) 2147483647 / 2147483647)
             (p(int i \<mapsto> \<lfloor>seed * 256\<rfloor>))
      else (seed, p))"
  by pat_completeness auto
termination
  by (relation "measure (\<lambda>(i, seed, p). 256 - i)") auto

declare fill_loop.simps [simp del]

text \<open>
  The destructuring swap \<open>[p[i], p[j]] = [p[j], p[i]]\<close> reads both slots, then writes
  \<open>p[i]\<close> and then \<open>p[j]\<close>.
\<close>

definition swap_slots :: "(int \<rightharpoonup> int) \<Rightarrow> int \<Rightarrow> int \<Rightarrow> (int \<rightharpoonup> int)" where
  "swap_slots p i j = (p(i := p j))(j := p i)"

text \<open>Second loop: \<open>for (i = 255; i > 0; i--)\<close>.\<close>

function shuffle_loop :: "nat \<Rightarrow> real \<Rightarrow> (int \<rightharpoonup> int) \<Rightarrow> real \<times> (int \<rightharpoonup> int)" where
  "shuffle_loop i seed p =
     (if i > 0
      then (let seed' = js_rem (seed * 16807) 2147483647;
                j = \<lfloor>seed' / 2147483647 * (real i + 1)\<rfloor>
            in shuffle_loop (i - 1) seed' (swap_slots p (int i) j))
      else (seed, p))"
  by pat_completeness auto
termination
  by (relation "measure (\<lambda>(i, seed, p). i)") auto

declare shuffle_loop.simps [simp del]

text \<open>Third loop: \<open>for (i = 0; i < 512; i++)\<close>, filling \<open>perm\<close> and \<open>permMod12\<close>.\<close>

function double_loop ::
  "nat \<Rightarrow> (int \<rightharpoonup> int) \<Rightarrow> int option list \<Rightarrow> int option list
     \<Rightarrow> int option list \<times> int option list" where
  "double_loop i p pm pm12 =
     (if i < 512
      then (let pm' = pm[i := p (int i AND 255)];
                pm12' = pm12[i := map_option (\<lambda>e. e smod 12) (arr_get pm' (int i))]
            in double_loop (i + 1) p pm' pm12')
      else (pm, pm12))"
  by pat_completeness auto
termination
  by (relation "measure (\<lambda>(i, p, pm, pm12). 512 - i)") auto

declare double_loop.simps [simp del]

definition Noise_constructor :: "real \<Rightarrow> Noise" where
  "Noise_constructor seed =
     (let (seed1, p1) = fill_loop 0 seed Map.empty;
          (seed2, p2) = shuffle_loop 255 seed1 p1;
          (pm, pm12) = double_loop 0 p2 (replicate 512 None) (replicate 512 None)
      in \<lparr>grad3 = grad3_table, noise_p = p2, perm = pm, permMod12 = pm12\<rparr>)"

definition dot :: "int \<times> int \<times> int \<Rightarrow> real \<Rightarrow> real \<Rightarrow> real" where
  "dot g x y = (case g of (g0, g1, g2) \<Rightarrow> of_int g0 * x + of_int g1 * y)"

definition fade :: "real \<Rightarrow> real" where
  "fade t = t * t * t * (t * (t * 6 - 15) + 10)"

definition lerp :: "real \<Rightarrow> real \<Rightarrow> real \<Rightarrow> real" where
  "lerp t a b = a + t * (b - a)"

text \<open>
  \<open>this.grad3[this.permMod12[k]]\<close>. An index that is \<open>undefined\<close>, \<open>NaN\<close> or outside
  the array selects \<open>undefined\<close>, and \<open>dot\<close> then throws a TypeError on \<open>g[0]\<close>:
  the result \<open>None\<close>.
\<close>

definition corner_grad :: "Noise \<Rightarrow> int \<Rightarrow> (int \<times> int \<times> int) option" where
  "corner_grad n k =
     (case arr_get (permMod12 n) k of
        None \<Rightarrow> None
      | Some m \<Rightarrow> list_get (grad3 n) m)"

text \<open>
  \<open>perlin2\<close>: \<open>None\<close> is the TypeError; an \<open>undefined\<close> entry of \<open>perm\<close> makes the
  hash \<open>NaN\<close>, which then selects no gradient.
\<close>

definition perlin2 :: "Noise \<Rightarrow> real \<Rightarrow> real \<Rightarrow> real option" where
  "perlin2 n x0 y0 =
     (let X = floor_and_255 x0;
          Y = floor_and_255 y0;
          x = x0 - of_int \<lfloor>x0\<rfloor>;
          y = y0 - of_int \<lfloor>y0\<rfloor>;
          u = fade x;
          v = fade y
      in case (arr_get (perm n) X, arr_get (perm n) (X + 1)) of
           (Some pX, Some pX1) \<Rightarrow>
             (let A = pX + Y; B = pX1 + Y
              in case (corner_grad n A, corner_grad n B,
                       corner_grad n (A + 1), corner_grad n (B + 1)) of
                   (Some gA, Some gB, Some gA1, Some gB1) \<Rightarrow>
                     Some (lerp v
                             (lerp u (dot gA x y) (dot gB (x - 1) y))
                             (lerp u (dot gA1 x (y - 1)) (dot gB1 (x - 1) (y - 1))))
                 | _ \<Rightarrow> None)
         | _ \<Rightarrow> None)"

section \<open>The wave grid (class AWaves)\<close>

text \<open>
  Library functions of the host: \<open>Math.hypot\<close>, \<open>Math.atan2\<close> (with the value the
  host gives at the origin and on the negative x axis for positive zeros),
  \<open>Math.round\<close> (halves go up).
\<close>

definition hypot :: "real \<Rightarrow> real \<Rightarrow> real" where
  "hypot a b = sqrt (a * a + b * b)"

definition atan2 :: "real \<Rightarrow> real \<Rightarrow> real" where
  "atan2 y x =
     (if 0 < x then arctan (y / x)
      else if x < 0 then (if 0 \<le> y then arctan (y / x) + pi else arctan (y / x) - pi)
      else if 0 < y then pi / 2
      else if y < 0 then - pi / 2
      else 0)"

definition js_round :: "real \<Rightarrow> int" where
  "js_round r = \<lfloor>r + 1 / 2\<rfloor>"

record Wave =
  wave_x :: real
  wave_y :: real

record Cursor =
  cursor_x :: real
  cursor_y :: real
  cursor_vx :: real
  cursor_vy :: real

record Point =
  pt_x :: real
  pt_y :: real
  wave :: Wave
  cursor :: Cursor

record Mouse =
  m_x :: real
  m_y :: real
  m_lx :: real
  m_ly :: real
  m_sx :: real
  m_sy :: real
  m_v :: real
  m_vs :: real
  m_a :: real
  m_set :: bool

text \<open>The rectangle returned by \<open>getBoundingClientRect\<close>.\<close>

record Rect =
  r_left :: real
  r_top :: real
  r_width :: real
  r_height :: real

text \<open>
  The component's state. \<open>paths\<close> holds, for each path element, its \<open>d\<close> attribute
  (\<open>None\<close> until it is first set). The pending animation-frame handle, the listeners and
  the style properties written to the page are not part of the model.
\<close>

record AWaves =
  bounding :: Rect
  mouse :: Mouse
  lines :: "Point list list"
  paths :: "string option list"
  noise :: Noise
  isVisible :: bool

definition updateMousePosition :: "real \<Rightarrow> real \<Rightarrow> real \<Rightarrow> AWaves \<Rightarrow> AWaves" where
  \<comment> \<open>the third argument is \<open>window.scrollY\<close> at the time of the call\<close>
  "updateMousePosition x y scrollY s =
     (let m = mouse s;
          m1 = m\<lparr>m_x := x - r_left (bounding s),
                 m_y := y - r_top (bounding s) + scrollY\<rparr>;
          m2 = (if \<not> m_set m1
                then m1\<lparr>m_sx := m_x m1, m_sy := m_y m1,
                        m_lx := m_x m1, m_ly := m_y m1, m_set := True\<rparr>
                else m1)
      in s\<lparr>mouse := m2\<rparr>)"

definition setSize :: "Rect \<Rightarrow> AWaves \<Rightarrow> AWaves" where
  \<comment> \<open>the first argument is what \<open>getBoundingClientRect\<close> returns\<close>
  "setSize rect s = s\<lparr>bounding := rect\<rparr>"

definition xGap :: real where "xGap = 12"
definition yGap :: real where "yGap = 36"

definition new_point :: "real \<Rightarrow> real \<Rightarrow> int \<Rightarrow> int \<Rightarrow> Point" where
  "new_point xStart yStart i j =
     \<lparr>pt_x = xStart + xGap * of_int i,
      pt_y = yStart + yGap * of_int j,
      wave = \<lparr>wave_x = 0, wave_y = 0\<rparr>,
      cursor = \<lparr>cursor_x = 0, cursor_y = 0, cursor_vx = 0, cursor_vy = 0\<rparr>\<rparr>"

text \<open>Inner loop of \<open>setLines\<close>: \<open>for (j = 0; j <= totalPoints; j++)\<close>.\<close>

function points_loop :: "int \<Rightarrow> int \<Rightarrow> real \<Rightarrow> real \<Rightarrow> int \<Rightarrow> Point list \<Rightarrow> Point list" where
  "points_loop j totalPoints xStart yStart i points =
     (if j \<le> totalPoints
      then points_loop (j + 1) totalPoints xStart yStart i
             (points @ [new_point xStart yStart i j])
      else points)"
  by pat_completeness auto
termination
  by (relation "measure (\<lambda>(j, totalPoints, xStart, yStart, i, points). nat (totalPoints + 1 - j))")
    auto

declare points_loop.simps [simp del]

text \<open>
  Outer loop: \<open>for (i = 0; i <= totalLines; i++)\<close>; each round creates one path element
  and pushes it with its line.
\<close>

function lines_loop ::
  "int \<Rightarrow> int \<Rightarrow> int \<Rightarrow> real \<Rightarrow> real \<Rightarrow> Point list list \<Rightarrow> string option list
     \<Rightarrow> Point list list \<times> string option list" where
  "lines_loop i totalLines totalPoints xStart yStart lns pths =
     (if i \<le> totalLines
      then lines_loop (i + 1) totalLines totalPoints xStart yStart
             (lns @ [points_loop 0 totalPoints xStart yStart i []]) (pths @ [None])
      else (lns, pths))"
  by pat_completeness auto
termination
  by (relation "measure (\<lambda>(i, totalLines, totalPoints, xStart, yStart, lns, pths).
                  nat (totalLines + 1 - i))")
    auto

declare lines_loop.simps [simp del]

definition setLines :: "AWaves \<Rightarrow> AWaves" where
  "setLines s =
     (let width = r_width (bounding s);
          height = r_height (bounding s);
          oWidth = width + 200;
          oHeight = height + 60;
          totalLines = \<lceil>oWidth / xGap\<rceil>;
          totalPoints = \<lceil>oHeight / yGap\<rceil>;
          xStart = (width - xGap * of_int totalLines) / 2;
          yStart = (height - yGap * of_int totalPoints) / 2;
          (lns, pths) = lines_loop 0 totalLines totalPoints xStart yStart [] []
      in s\<lparr>lines := lns, paths := pths\<rparr>)"

text \<open>
  The arithmetic of \<open>setLines\<close> before its loops (\<open>oWidth\<close> to \<open>yStart\<close>), with
  every division checked: a division whose divisor is 0 gives \<open>None\<close>, where the host
  would give \<open>Infinity\<close> or \<open>NaN\<close>. The result is \<open>totalLines\<close>, \<open>totalPoints\<close>,
  \<open>xStart\<close> and \<open>yStart\<close>.
\<close>

definition checked_div :: "real \<Rightarrow> real \<Rightarrow> real option" where
  "checked_div a b = (if b = 0 then None else Some (a / b))"

definition grid_geometry :: "real \<Rightarrow> real \<Rightarrow> (int \<times> int \<times> real \<times> real) option" where
  "grid_geometry width height =
     do {
       let oWidth = width + 200;
       let oHeight = height + 60;
       a \<leftarrow> checked_div oWidth xGap;
       b \<leftarrow> checked_div oHeight yGap;
       let totalLines = \<lceil>a\<rceil>;
       let totalPoints = \<lceil>b\<rceil>;
       xStart \<leftarrow> checked_div (width - xGap * of_int totalLines) 2;
       yStart \<leftarrow> checked_div (height - yGap * of_int totalPoints) 2;
       Some (totalLines, totalPoints, xStart, yStart)
     }"

definition onResize :: "Rect \<Rightarrow> AWaves \<Rightarrow> AWaves" where
  "onResize rect s = setLines (setSize rect s)"

text \<open>The influence radius \<open>l\<close> of \<open>movePoints\<close>.\<close>

definition influence_radius :: "Mouse \<Rightarrow> real" where
  "influence_radius m = max 175 (m_vs m)"

text \<open>
  The body of the inner \<open>forEach\<close> of \<open>movePoints\<close> for one point. The flag is
  \<open>False\<close> when \<open>perlin2\<close> threw: the point is then as it was, since the call is the
  first statement of the body.
\<close>

definition movePoint :: "Noise \<Rightarrow> Mouse \<Rightarrow> real \<Rightarrow> Point \<Rightarrow> Point \<times> bool" where
  "movePoint nz m time p =
     (case perlin2 nz ((pt_x p + time * 0.015) * 0.002) ((pt_y p + time * 0.008) * 0.002) of
        None \<Rightarrow> (p, False)
      | Some nv \<Rightarrow>
         (let noiseValue = nv * 12;
              w = \<lparr>wave_x = cos noiseValue * 28, wave_y = sin noiseValue * 14\<rparr>;
              dx = pt_x p - m_sx m;
              dy = pt_y p - m_sy m;
              d = hypot dx dy;
              l = influence_radius m;
              c0 = cursor p;
              c1 = (if d < l
                    then (let s = 1 - d / l;
                              f = cos (d * 0.001) * s
                          in c0\<lparr>cursor_vx := cursor_vx c0 + cos (m_a m) * f * l * m_vs m * 0.0006,
                                cursor_vy := cursor_vy c0 + sin (m_a m) * f * l * m_vs m * 0.0006\<rparr>)
                    else c0);
              c2 = c1\<lparr>cursor_vx := cursor_vx c1 + (0 - cursor_x c1) * 0.004,
                      cursor_vy := cursor_vy c1 + (0 - cursor_y c1) * 0.004\<rparr>;
              c3 = c2\<lparr>cursor_vx := cursor_vx c2 * 0.92,
                      cursor_vy := cursor_vy c2 * 0.92\<rparr>;
              c4 = c3\<lparr>cursor_x := cursor_x c3 + cursor_vx c3 * 2,
                      cursor_y := cursor_y c3 + cursor_vy c3 * 2\<rparr>;
              c5 = c4\<lparr>cursor_x := min 80 (max (- 80) (cursor_x c4)),
                      cursor_y := min 80 (max (- 80) (cursor_y c4))\<rparr>
          in (p\<lparr>wave := w, cursor := c5\<rparr>, True)))"

text \<open>
  \<open>forEach\<close> over an array whose callback may throw: the elements before the throw are
  updated, the one that threw is as far as its callback got, the rest are untouched.
\<close>

fun forEach :: "('a \<Rightarrow> 'a \<times> bool) \<Rightarrow> 'a list \<Rightarrow> 'a list \<times> bool" where
  "forEach f [] = ([], True)"
| "forEach f (x # xs) =
     (let (x', ok) = f x
      in if ok then (let (xs', ok') = forEach f xs in (x' # xs', ok'))
         else (x' # xs, False))"

definition movePoints :: "real \<Rightarrow> AWaves \<Rightarrow> AWaves \<times> bool" where
  "movePoints time s =
     (let (lns, ok) = forEach (forEach (movePoint (noise s) (mouse s) time)) (lines s)
      in (s\<lparr>lines := lns\<rparr>, ok))"

record Coords =
  co_x :: real
  co_y :: real

definition moved :: "Point \<Rightarrow> bool \<Rightarrow> Coords" where
  "moved point withCursorForce =
     (let x = pt_x point + wave_x (wave point)
                + (if withCursorForce then cursor_x (cursor point) else 0);
          y = pt_y point + wave_y (wave point)
                + (if withCursorForce then cursor_y (cursor point) else 0)
      in \<lparr>co_x = of_int (js_round (x * 10)) / 10,
          co_y = of_int (js_round (y * 10)) / 10\<rparr>)"

text \<open>
  The template literal \<open>`${p1.x}`\<close> writes a number in decimal. The numbers written are
  those \<open>moved\<close> returns, an integer number of tenths: the integer part, then a point and
  one digit unless that digit is zero (exponent notation, which the host uses from
  \<open>10^21\<close> on, is outside the model).
\<close>

definition digit_char :: "nat \<Rightarrow> char" where
  "digit_char d = ''0123456789'' ! d"

function show_nat :: "nat \<Rightarrow> string" where
  "show_nat n = (if n < 10 then [digit_char n] else show_nat (n div 10) @ [digit_char (n mod 10)])"
  by pat_completeness auto
termination
  by (relation "measure (\<lambda>n. n)") auto

declare show_nat.simps [simp del]

definition number_string :: "real \<Rightarrow> string" where
  "number_string r =
     (let k = \<lfloor>r * 10\<rfloor>; a = nat \<bar>k\<bar>
      in (if k < 0 then ''-'' else '''') @ show_nat (a div 10)
         @ (if a mod 10 = 0 then '''' else ''.'' @ [digit_char (a mod 10)]))"

text \<open>
  The inner \<open>forEach\<close> of \<open>drawLines\<close>, with the index of the point and the length of
  the line; \<open>d\<close> is the string built so far.
\<close>

fun line_loop :: "Point list \<Rightarrow> nat \<Rightarrow> nat \<Rightarrow> string \<Rightarrow> string" where
  "line_loop [] pIndex len d = d"
| "line_loop (point # rest) pIndex len d =
     (let isLast = (int pIndex = int len - 1);
          p1 = moved point (\<not> isLast)
      in line_loop rest (pIndex + 1) len
           (d @ ''L '' @ number_string (co_x p1) @ '' '' @ number_string (co_y p1)))"

text \<open>
  The \<open>d\<close> string of one line. \<open>points[0]\<close> of an empty line is \<open>undefined\<close> and
  \<open>moved\<close> throws a TypeError on it: \<open>None\<close>.
\<close>

definition path_d :: "Point list \<Rightarrow> string option" where
  "path_d points =
     (case points of
        [] \<Rightarrow> None
      | p0 # _ \<Rightarrow>
          (let p1 = moved p0 False;
               d = ''M '' @ number_string (co_x p1) @ '' '' @ number_string (co_y p1)
           in Some (line_loop points 0 (length points) d)))"

text \<open>
  The outer \<open>forEach\<close> of \<open>drawLines\<close>; \<open>paths[lIndex]\<close> outside the array is
  \<open>undefined\<close> and \<open>setAttribute\<close> on it throws.
\<close>

fun draw_loop :: "Point list list \<Rightarrow> nat \<Rightarrow> string option list \<Rightarrow> string option list \<times> bool" where
  "draw_loop [] lIndex pths = (pths, True)"
| "draw_loop (points # rest) lIndex pths =
     (case path_d points of
        None \<Rightarrow> (pths, False)
      | Some d \<Rightarrow>
          if lIndex < length pths then draw_loop rest (lIndex + 1) (pths[lIndex := Some d])
          else (pths, False))"

definition drawLines :: "AWaves \<Rightarrow> AWaves \<times> bool" where
  "drawLines s = (let (pths, ok) = draw_loop (lines s) 0 (paths s) in (s\<lparr>paths := pths\<rparr>, ok))"

text \<open>The part of \<open>tick\<close> that updates the mouse state.\<close>

definition tick_mouse :: "Mouse \<Rightarrow> Mouse" where
  "tick_mouse m =
     (let sx = m_sx m + (m_x m - m_sx m) * 0.08;
          sy = m_sy m + (m_y m - m_sy m) * 0.08;
          dx = m_x m - m_lx m;
          dy = m_y m - m_ly m;
          d = hypot dx dy;
          vs1 = m_vs m + (d - m_vs m) * 0.1;
          vs2 = min 100 vs1
      in m\<lparr>m_sx := sx, m_sy := sy, m_v := d, m_vs := vs2,
            m_lx := m_x m, m_ly := m_y m, m_a := atan2 dy dx\<rparr>)"

text \<open>
  \<open>tick\<close>: the flag is \<open>False\<close> when an exception left the function; the state is
  then as the statements before the throw made it.
\<close>

definition tick :: "real \<Rightarrow> AWaves \<Rightarrow> AWaves \<times> bool" where
  "tick time s =
     (if \<not> isVisible s then (s, True)
      else (let s1 = s\<lparr>mouse := tick_mouse (mouse s)\<rparr>;
                (s2, ok) = movePoints time s1
            in if ok then drawLines s2 else (s2, False)))"

definition initial_mouse :: Mouse where
  "initial_mouse =
     \<lparr>m_x = - 10, m_y = 0, m_lx = 0, m_ly = 0, m_sx = 0, m_sy = 0,
      m_v = 0, m_vs = 0, m_a = 0, m_set = False\<rparr>"

text \<open>
  \<open>connectedCallback\<close>: \<open>svg\<close> tells whether the element with class \<open>js-svg\<close> was
  found, \<open>rect\<close> is the bounding rectangle and \<open>seed\<close> the value of \<open>Math.random()\<close>.
  Without the element the component stays inert (\<open>None\<close>). \<open>new_AWaves\<close> is the
  state after the field initialisations and \<open>setSize\<close>; the rectangle has no value
  before \<open>setSize\<close>, so it is set there at once.
\<close>

definition new_AWaves :: "Rect \<Rightarrow> real \<Rightarrow> AWaves" where
  "new_AWaves rect seed =
     setSize rect
       \<lparr>bounding = rect, mouse = initial_mouse, lines = [], paths = [],
        noise = Noise_constructor seed, isVisible = True\<rparr>"

definition connectedCallback :: "bool \<Rightarrow> Rect \<Rightarrow> real \<Rightarrow> AWaves option" where
  "connectedCallback svg rect seed =
     (if \<not> svg then None
      else Some (fst (tick 0 (setLines (new_AWaves rect seed)))))"

text \<open>
  What the host delivers after mounting: a resize with the new rectangle, a mouse move
  (page coordinates and \<open>window.scrollY\<close>), a touch move (the client coordinates of the
  touches and \<open>window.scrollY\<close>), a visibility change (whether the document is hidden)
  and an animation frame with its time stamp. An exception in a handler ends that handler
  and leaves the state as it is then.
\<close>

datatype event =
    Resize Rect
  | MouseMove real real real
  | TouchMove "(real \<times> real) list" real
  | VisibilityChange bool
  | Frame real

fun handle :: "event \<Rightarrow> AWaves \<Rightarrow> AWaves" where
  "handle (Resize rect) s = onResize rect s"
| "handle (MouseMove pageX pageY scrollY) s = updateMousePosition pageX pageY scrollY s"
| "handle (TouchMove touches scrollY) s =
     (case touches of
        [] \<Rightarrow> s
      | (clientX, clientY) # _ \<Rightarrow> updateMousePosition clientX clientY scrollY s)"
| "handle (VisibilityChange hidden) s = s\<lparr>isVisible := \<not> hidden\<rparr>"
| "handle (Frame time) s = fst (tick time s)"

text \<open>The events that reach \<open>updateMousePosition\<close>.\<close>

fun pointer_event :: "event \<Rightarrow> bool" where
  "pointer_event (MouseMove pageX pageY scrollY) = True"
| "pointer_event (TouchMove touches scrollY) = (touches \<noteq> [])"
| "pointer_event _ = False"

definition run :: "event list \<Rightarrow> AWaves \<Rightarrow> AWaves" where
  "run evs s = foldl (\<lambda>s e. handle e s) s evs"

section \<open>Notions used in the statements\<close>

text \<open>A point whose cursor displacement lies in \<open>[-80, 80]\<close> on both axes.\<close>

definition cursor_ok :: "Point \<Rightarrow> bool" where
  "cursor_ok p \<longleftrightarrow> - 80 \<le> cursor_x (cursor p) \<and> cursor_x (cursor p) \<le> 80
                 \<and> - 80 \<le> cursor_y (cursor p) \<and> cursor_y (cursor p) \<le> 80"

text \<open>The two path commands \<open>drawLines\<close> writes, and the number of occurrences of a
  character in a string.\<close>

definition move_to :: "Coords \<Rightarrow> string" where
  "move_to c = ''M '' @ number_string (co_x c) @ '' '' @ number_string (co_y c)"

definition line_to :: "Coords \<Rightarrow> string" where
  "line_to c = ''L '' @ number_string (co_x c) @ '' '' @ number_string (co_y c)"

definition count_char :: "char \<Rightarrow> string \<Rightarrow> nat" where
  "count_char c s = length (filter (\<lambda>x. x = c) s)"

section \<open>The permutation table\<close>

lemma js_rem_small: "0 \<le> a \<Longrightarrow> a < n \<Longrightarrow> js_rem a n = a"
proof -
  assume a: "0 \<le> a" "a < n"
  then have "0 \<le> a / n" "a / n < 1" by simp_all
  then have "\<lfloor>a / n\<rfloor> = 0" by (simp add: floor_eq_iff)
  with \<open>0 \<le> a / n\<close> show ?thesis by (simp add: js_rem_def trunc_def)
qed

lemma fill_loop_tail:
  "r = 16807 / 2147483647 \<Longrightarrow> 1 \<le> i \<Longrightarrow> i \<le> 256 \<Longrightarrow> 0 \<le> seed \<Longrightarrow> seed * 256 < 1 \<Longrightarrow>
   fill_loop i seed p =
     (seed * r ^ (256 - i),
      (\<lambda>k. if int i \<le> k \<and> k < 256 then Some 0 else p k))"
proof (induction i seed p rule: fill_loop.induct)
  case (1 i seed p)
  note r = \<open>r = 16807 / 2147483647\<close>
  show ?case
  proof (cases "i < 256")
    case False
    with "1.prems" have "i = 256" by simp
    then show ?thesis by (subst fill_loop.simps) (auto simp: fun_eq_iff)
  next
    case True
    have rem: "js_rem (seed * 16807) 2147483647 = seed * 16807"
      using "1.prems" by (intro js_rem_small) auto
    have sr: "seed * 16807 / 2147483647 = seed * r" by (simp add: r)
    have s0: "0 \<le> seed * r" using "1.prems" by (simp add: r)
    have s1: "seed * r * 256 < 1" using "1.prems" by (simp add: r)
    have fl: "\<lfloor>seed * 256\<rfloor> = 0" using "1.prems" by (simp add: floor_eq_iff)
    have ih: "fill_loop (i + 1) (seed * r) (p(int i \<mapsto> 0)) =
       (seed * r * r ^ (256 - (i + 1)),
        (\<lambda>k. if int (i + 1) \<le> k \<and> k < 256 then Some 0 else (p(int i \<mapsto> 0)) k))"
    proof -
      have a: "1 \<le> i + 1" by simp
      have b: "i + 1 \<le> 256" using True by simp
      show ?thesis by (rule "1.IH"[OF True r a b, unfolded rem sr fl, OF s0 s1])
    qed
    have pw: "r ^ (256 - i) = r * r ^ (256 - (i + 1))"
      using True by (metis Suc_diff_Suc Suc_eq_plus1 diff_Suc_Suc power_Suc)
    have "fill_loop i seed p = fill_loop (i + 1) (seed * r) (p(int i \<mapsto> 0))"
      by (subst fill_loop.simps) (simp only: True if_True rem sr fl)
    also note ih
    finally show ?thesis
      using True unfolding pw by (auto simp: fun_eq_iff mult.assoc)
  qed
qed

lemma fill_loop_0:
  assumes r: "r = 16807 / 2147483647" and "0 \<le> seed" "seed \<le> 499"
  shows "fill_loop 0 seed Map.empty =
     (seed * r ^ 256,
      (\<lambda>k. if k = 0 then Some \<lfloor>seed * 256\<rfloor> else if 1 \<le> k \<and> k < 256 then Some 0 else None))"
proof -
  have rem: "js_rem (seed * 16807) 2147483647 = seed * 16807"
    using assms by (intro js_rem_small) auto
  have sr: "seed * 16807 / 2147483647 = seed * r" by (simp add: r)
  have s0: "0 \<le> seed * r" using assms(2,3) by (simp add: r)
  have s1: "seed * r * 256 < 1" using assms(2,3) by (simp add: r)
  have "(256::nat) = Suc 255" by simp
  then have pw: "seed * r * r ^ (256 - 1) = seed * r ^ 256"
    by (simp only: power_Suc diff_Suc_1 mult.assoc)
  have "fill_loop 0 seed Map.empty = fill_loop 1 (seed * r) (Map.empty(0 \<mapsto> \<lfloor>seed * 256\<rfloor>))"
    by (subst fill_loop.simps) (simp add: rem sr)
  also have "\<dots> = (seed * r * r ^ (256 - 1),
      (\<lambda>k. if int 1 \<le> k \<and> k < 256 then Some 0 else (Map.empty(0 \<mapsto> \<lfloor>seed * 256\<rfloor>)) k))"
    by (rule fill_loop_tail[OF r _ _ s0 s1]) simp_all
  finally show ?thesis
    unfolding pw by (auto simp: fun_eq_iff)
qed

lemma and_255_mod: "(k::int) AND 255 = k mod 256"
proof -
  have m: "(255::int) = mask 8" by (simp add: mask_eq_exp_minus_1)
  have "k AND mask 8 = k mod 2 ^ 8"
    by (simp only: take_bit_eq_mask [symmetric] take_bit_eq_mod)
  then show ?thesis unfolding m [symmetric] by simp
qed

lemma shuffle_step:
  assumes "1 \<le> i" "i \<le> 255" "0 \<le> seed" "seed * 16807 < 1"
  shows "shuffle_loop i seed p = shuffle_loop (i - 1) (seed * 16807) (swap_slots p (int i) 0)"
proof -
  have rem: "js_rem (seed * 16807) 2147483647 = seed * 16807"
    using assms by (intro js_rem_small) auto
  have "0 \<le> seed * 16807 / 2147483647 * (real i + 1)" using assms by simp
  moreover have "seed * 16807 / 2147483647 * (real i + 1) < 1"
  proof -
    have "seed * 16807 * (real i + 1) \<le> seed * 16807 * 256"
      using assms by (intro mult_left_mono) auto
    also have "\<dots> < 256" using assms by simp
    finally show ?thesis by simp
  qed
  ultimately have j: "\<lfloor>seed * 16807 / 2147483647 * (real i + 1)\<rfloor> = 0"
    by (simp add: floor_eq_iff)
  show ?thesis
    using assms(1) by (subst shuffle_loop.simps) (simp only: rem j Let_def, simp)
qed

lemma shuffle_noop:
  "i \<le> 255 \<Longrightarrow> 0 \<le> seed \<Longrightarrow> seed * 16807 ^ i < 1 \<Longrightarrow>
   (\<forall>k. 1 \<le> k \<and> k \<le> int i \<longrightarrow> p k = p 0) \<Longrightarrow>
   shuffle_loop i seed p = (seed * 16807 ^ i, p)"
proof (induction i arbitrary: seed)
  case 0
  then show ?case by (subst shuffle_loop.simps) simp
next
  case (Suc i)
  have one: "(1::real) \<le> 16807 ^ i" by simp
  have "seed * 16807 * 1 \<le> seed * 16807 * 16807 ^ i"
    using Suc.prems(2) one by (intro mult_left_mono) auto
  with Suc.prems(3) have small: "seed * 16807 < 1" by (simp add: mult.assoc)
  have same: "swap_slots p (int (Suc i)) 0 = p"
    using Suc.prems(4) by (auto simp: swap_slots_def fun_eq_iff)
  have "shuffle_loop (Suc i) seed p = shuffle_loop i (seed * 16807) p"
    using shuffle_step[of "Suc i" seed p] Suc.prems small same by simp
  also have "\<dots> = (seed * 16807 * 16807 ^ i, p)"
    using Suc.prems small by (intro Suc.IH) (auto simp: mult.assoc)
  finally show ?case by (simp add: mult.assoc)
qed

lemma double_loop_spec:
  "length pm = 512 \<Longrightarrow> length pm12 = 512 \<Longrightarrow> double_loop i p pm pm12 = (qm, qm12) \<Longrightarrow>
   length qm = 512 \<and> length qm12 = 512 \<and>
   (\<forall>k<512. qm ! k = (if i \<le> k then p (int k mod 256) else pm ! k) \<and>
            qm12 ! k = (if i \<le> k then map_option (\<lambda>e. e smod 12) (p (int k mod 256))
                        else pm12 ! k))"
proof (induction i p pm pm12 rule: double_loop.induct)
  case (1 i p pm pm12)
  show ?case
  proof (cases "i < 512")
    case False
    with "1.prems" show ?thesis by (subst (asm) double_loop.simps) auto
  next
    case True
    define pm' where "pm' = pm[i := p (int i AND 255)]"
    define pm12' where "pm12' = pm12[i := map_option (\<lambda>e. e smod 12) (arr_get pm' (int i))]"
    have l1: "length pm' = 512" and l2: "length pm12' = 512"
      using "1.prems" by (simp_all add: pm'_def pm12'_def)
    have get: "arr_get pm' (int i) = p (int i mod 256)"
      using True "1.prems"(1) by (simp add: arr_get_def pm'_def and_255_mod)
    have run: "double_loop (i + 1) p pm' pm12' = (qm, qm12)"
      using "1.prems"(3) True
      by (subst (asm) double_loop.simps) (simp add: Let_def pm'_def pm12'_def)
    note ih = "1.IH"[OF True pm'_def pm12'_def l1 l2 run]
    show ?thesis
    proof (intro conjI allI impI)
      show "length qm = 512" "length qm12 = 512" using ih by simp_all
    next
      fix k :: nat assume k: "k < 512"
      show "qm ! k = (if i \<le> k then p (int k mod 256) else pm ! k)"
        using ih k True "1.prems"(1)
        by (cases "k = i") (auto simp: pm'_def and_255_mod)
      show "qm12 ! k = (if i \<le> k then map_option (\<lambda>e. e smod 12) (p (int k mod 256))
                        else pm12 ! k)"
        using ih k True "1.prems"(2) get
        by (cases "k = i") (auto simp: pm12'_def)
    qed
  qed
qed

lemma lcg_tiny:
  fixes r c seed :: real
  assumes "0 \<le> r" "0 \<le> c" "r * c \<le> 1" "0 \<le> seed" "seed * r < 1"
  shows "seed * r ^ Suc n * c ^ n < 1"
proof -
  have e: "seed * r ^ Suc n * c ^ n = seed * r * (r * c) ^ n"
    by (simp only: power_Suc power_mult_distrib mult.assoc)
  have "0 \<le> r * c" using assms by simp
  then have "(r * c) ^ n \<le> 1" using assms(3) by (rule power_le_one)
  moreover have "0 \<le> seed * r" using assms by simp
  ultimately have "seed * r * (r * c) ^ n \<le> seed * r * 1" by (rule mult_left_mono)
  with assms(5) show ?thesis unfolding e by simp
qed

lemma shuffled_table:
  assumes s: "0 \<le> seed" "seed \<le> 499"
  shows "snd (shuffle_loop 255 (fst (fill_loop 0 seed Map.empty)) (snd (fill_loop 0 seed Map.empty)))
         = (\<lambda>k. if k = 255 then Some \<lfloor>seed * 256\<rfloor>
                          else if 0 \<le> k \<and> k < 255 then Some 0 else None)"
proof -
  define r :: real where "r = 16807 / 2147483647"
  define n :: nat where "n = 254"
  define p1 :: "int \<rightharpoonup> int" where
    "p1 = (\<lambda>k. if k = 0 then Some \<lfloor>seed * 256\<rfloor> else if 1 \<le> k \<and> k < 256 then Some 0 else None)"
  define s1 where "s1 = seed * r ^ 256"
  have n1: "(255::nat) = Suc n" and n2: "(256::nat) = Suc (Suc n)" by (simp_all add: n_def)
  have fill: "fill_loop 0 seed Map.empty = (s1, p1)"
    unfolding s1_def p1_def by (rule fill_loop_0[OF r_def s])
  have r0: "0 \<le> r" and rc: "r * 16807 \<le> 1" by (simp_all add: r_def)
  have sr: "seed * r < 1" using s by (simp add: r_def)
  have s1_0: "0 \<le> s1" using s r0 by (simp add: s1_def)
  have tiny: "s1 * 16807 ^ Suc n < 1"
    unfolding s1_def n2 by (rule lcg_tiny[OF r0 _ rc s(1) sr]) simp
  have "s1 * 16807 * 1 \<le> s1 * 16807 * 16807 ^ n"
    using s1_0 by (intro mult_left_mono) auto
  with tiny have small: "s1 * 16807 < 1" by (simp add: mult.assoc)
  have tiny': "s1 * 16807 * 16807 ^ n < 1" using tiny by (simp add: mult.assoc)
  have step: "shuffle_loop (Suc n) s1 p1 = shuffle_loop n (s1 * 16807) (swap_slots p1 (int (Suc n)) 0)"
    using shuffle_step[of "Suc n" s1 p1] s1_0 small by (simp add: n_def)
  have noop: "shuffle_loop n (s1 * 16807) (swap_slots p1 (int (Suc n)) 0)
        = (s1 * 16807 * 16807 ^ n, swap_slots p1 (int (Suc n)) 0)"
  proof (rule shuffle_noop)
    show "n \<le> 255" by (simp add: n_def)
    show "0 \<le> s1 * 16807" using s1_0 by simp
    show "s1 * 16807 * 16807 ^ n < 1" by (rule tiny')
    show "\<forall>k. 1 \<le> k \<and> k \<le> int n \<longrightarrow>
          swap_slots p1 (int (Suc n)) 0 k = swap_slots p1 (int (Suc n)) 0 0"
      by (auto simp: swap_slots_def p1_def n_def)
  qed
  have "snd (shuffle_loop (Suc n) s1 p1) = swap_slots p1 (int (Suc n)) 0"
    unfolding step noop by simp
  also have "\<dots> = (\<lambda>k. if k = 255 then Some \<lfloor>seed * 256\<rfloor>
                          else if 0 \<le> k \<and> k < 255 then Some 0 else None)"
    by (auto simp: swap_slots_def p1_def fun_eq_iff n_def)
  finally show ?thesis
    unfolding fill fst_conv snd_conv n1 .
qed

lemma Noise_constructor_tables:
  assumes s: "0 \<le> seed" "seed \<le> 499"
  shows "grad3 (Noise_constructor seed) = grad3_table"
    and "noise_p (Noise_constructor seed) =
          (\<lambda>k. if k = 255 then Some \<lfloor>seed * 256\<rfloor>
                else if 0 \<le> k \<and> k < 255 then Some 0 else None)"
    and "length (perm (Noise_constructor seed)) = 512"
    and "length (permMod12 (Noise_constructor seed)) = 512"
    and "\<forall>k<512. perm (Noise_constructor seed) ! k =
            Some (if int k mod 256 = 255 then \<lfloor>seed * 256\<rfloor> else 0)"
    and "\<forall>k<512. permMod12 (Noise_constructor seed) ! k =
            Some ((if int k mod 256 = 255 then \<lfloor>seed * 256\<rfloor> else 0) smod 12)"
proof -
  define p2 where "p2 = snd (shuffle_loop 255 (fst (fill_loop 0 seed Map.empty))
                                (snd (fill_loop 0 seed Map.empty)))"
  have p2: "p2 = (\<lambda>k. if k = 255 then Some \<lfloor>seed * 256\<rfloor>
                else if 0 \<le> k \<and> k < 255 then Some 0 else None)"
    unfolding p2_def by (rule shuffled_table[OF s])
  obtain qm qm12 where dl:
    "double_loop 0 p2 (replicate 512 None) (replicate 512 None) = (qm, qm12)"
    by (cases "double_loop 0 p2 (replicate 512 None) (replicate 512 None)") blast
  have N: "Noise_constructor seed =
      \<lparr>grad3 = grad3_table, noise_p = p2, perm = qm, permMod12 = qm12\<rparr>"
    using dl by (simp add: Noise_constructor_def case_prod_beta Let_def p2_def)
  have spec: "length qm = 512 \<and> length qm12 = 512 \<and>
   (\<forall>k<512. qm ! k = (if 0 \<le> k then p2 (int k mod 256) else replicate 512 None ! k) \<and>
            qm12 ! k = (if 0 \<le> k then map_option (\<lambda>e. e smod 12) (p2 (int k mod 256))
                        else replicate 512 None ! k))"
    by (rule double_loop_spec[OF _ _ dl]) simp_all
  have rng: "0 \<le> int k mod 256 \<and> int k mod 256 < 256" for k by simp
  have ent: "p2 (int k mod 256) = Some (if int k mod 256 = 255 then \<lfloor>seed * 256\<rfloor> else 0)" for k
    using rng[of k] unfolding p2 by auto
  show "grad3 (Noise_constructor seed) = grad3_table" by (simp add: N)
  show "noise_p (Noise_constructor seed) =
          (\<lambda>k. if k = 255 then Some \<lfloor>seed * 256\<rfloor>
                else if 0 \<le> k \<and> k < 255 then Some 0 else None)"
    by (simp add: N p2)
  show "length (perm (Noise_constructor seed)) = 512" using spec by (simp add: N)
  show "length (permMod12 (Noise_constructor seed)) = 512" using spec by (simp add: N)
  show "\<forall>k<512. perm (Noise_constructor seed) ! k =
            Some (if int k mod 256 = 255 then \<lfloor>seed * 256\<rfloor> else 0)"
    using spec ent by (simp add: N)
  show "\<forall>k<512. permMod12 (Noise_constructor seed) ! k =
            Some ((if int k mod 256 = 255 then \<lfloor>seed * 256\<rfloor> else 0) smod 12)"
    using spec ent by (simp add: N)
qed

lemma seed_entry_range:
  assumes "0 \<le> seed" "seed < 1"
  shows "0 \<le> \<lfloor>seed * 256\<rfloor> \<and> \<lfloor>seed * 256\<rfloor> \<le> 255"
proof -
  have "0 \<le> seed * 256" "seed * 256 < 256" using assms by simp_all
  then show ?thesis by (simp add: floor_less_iff le_floor_iff)
qed

lemma smod_12_range: "0 \<le> (e::int) \<Longrightarrow> 0 \<le> e smod 12 \<and> e smod 12 < 12"
  by (simp add: smod_int_alt_def sgn_if)

lemma perm_lookup:
  assumes s: "0 \<le> seed" "seed < 1" and k: "0 \<le> k" "k < 512"
  shows "\<exists>e. arr_get (perm (Noise_constructor seed)) k = Some e \<and> 0 \<le> e \<and> e \<le> 255"
proof -
  have s': "seed \<le> 499" using s by simp
  have "nat k < 512" using k by simp
  then have "perm (Noise_constructor seed) ! nat k =
      Some (if int (nat k) mod 256 = 255 then \<lfloor>seed * 256\<rfloor> else 0)"
    using Noise_constructor_tables(5)[OF s(1) s'] by blast
  then show ?thesis
    using k seed_entry_range[OF s] Noise_constructor_tables(3)[OF s(1) s']
    by (auto simp: arr_get_def)
qed

lemma corner_grad_lookup:
  assumes s: "0 \<le> seed" "seed < 1" and k: "0 \<le> k" "k < 512"
  shows "\<exists>g. corner_grad (Noise_constructor seed) k = Some g \<and> g \<in> set grad3_table"
proof -
  have s': "seed \<le> 499" using s by simp
  define e where "e = (if int (nat k) mod 256 = 255 then \<lfloor>seed * 256\<rfloor> else 0)"
  have e0: "0 \<le> e" using seed_entry_range[OF s] by (simp add: e_def)
  have "nat k < 512" using k by simp
  then have "permMod12 (Noise_constructor seed) ! nat k = Some (e smod 12)"
    using Noise_constructor_tables(6)[OF s(1) s'] unfolding e_def by blast
  then have a: "arr_get (permMod12 (Noise_constructor seed)) k = Some (e smod 12)"
    using k Noise_constructor_tables(4)[OF s(1) s'] by (simp add: arr_get_def)
  have len: "length grad3_table = 12" by (simp add: grad3_table_def)
  have m: "0 \<le> e smod 12" "e smod 12 < 12" using smod_12_range[OF e0] by simp_all
  then have "nat (e smod 12) < length grad3_table" using len by simp
  then have "grad3_table ! nat (e smod 12) \<in> set grad3_table" by (rule nth_mem)
  then show ?thesis
    using a m len by (simp add: corner_grad_def list_get_def Noise_constructor_tables(1)[OF s(1) s'])
qed

section \<open>The range of the noise\<close>

lemma floor_and_255_range: "0 \<le> floor_and_255 x \<and> floor_and_255 x \<le> 255"
proof -
  define w :: "32 word" where "w = word_of_int \<lfloor>x\<rfloor> AND 255"
  have "w \<le> 255" unfolding w_def by (rule word_and_le1)
  then have u: "uint w \<le> 255" by (simp add: word_le_def)
  have u0: "0 \<le> uint w" by simp
  have "- (2 ^ 31) \<le> (0::int)" by simp
  then have lo: "- (2 ^ 31) \<le> uint w" using u0 by (rule order_trans)
  have "(255::int) < 2 ^ 31" by simp
  with u have hi: "uint w < 2 ^ 31" by (rule le_less_trans)
  have "signed_take_bit 31 (uint w) = uint w"
    using lo hi by (rule signed_take_bit_int_eq_self)
  then have "sint w = uint w" by (simp add: sint_uint)
  with u show ?thesis unfolding floor_and_255_def w_def[symmetric] by simp
qed

lemma fade_nonneg: "0 \<le> t \<Longrightarrow> 0 \<le> fade t"
proof -
  assume t: "0 \<le> t"
  have "t * (t * 6 - 15) + 10 = 6 * (t - 5/4)^2 + 5/8"
    by (simp add: power2_eq_square algebra_simps)
  then have "0 \<le> t * (t * 6 - 15) + 10" by simp
  with t show ?thesis unfolding fade_def by simp
qed

lemma fade_mirror: "fade (1 - t) = 1 - fade t"
  by (simp add: fade_def algebra_simps)

lemma fade_le_one: "t \<le> 1 \<Longrightarrow> fade t \<le> 1"
  using fade_nonneg[of "1 - t"] by (simp add: fade_mirror)

lemma fade_half: "lerp (fade t) t (1 - t) \<le> 1/2"
proof -
  have "1/2 - lerp (fade t) t (1 - t) = 2 * (t - 1/2)^2 * (6 * ((t - 1/2)^2 - 5/12)^2 + 5/6)"
    by (simp add: fade_def lerp_def power2_eq_square algebra_simps)
  moreover have "0 \<le> 2 * (t - 1/2)^2 * (6 * ((t - 1/2)^2 - 5/12)^2 + 5/6)"
    by (intro mult_nonneg_nonneg add_nonneg_nonneg) simp_all
  ultimately show ?thesis by linarith
qed

lemma lerp_abs:
  assumes "0 \<le> t" "t \<le> 1" "\<bar>a\<bar> \<le> A" "\<bar>b\<bar> \<le> B"
  shows "\<bar>lerp t a b\<bar> \<le> lerp t A B"
proof -
  have e: "lerp t a b = (1 - t) * a + t * b" "lerp t A B = (1 - t) * A + t * B"
    by (simp_all add: lerp_def algebra_simps)
  have "\<bar>(1 - t) * a + t * b\<bar> \<le> \<bar>(1 - t) * a\<bar> + \<bar>t * b\<bar>" by (rule abs_triangle_ineq)
  also have "\<dots> = (1 - t) * \<bar>a\<bar> + t * \<bar>b\<bar>" using assms by (simp add: abs_mult)
  also have "\<dots> \<le> (1 - t) * A + t * B"
    using assms by (intro add_mono mult_left_mono) auto
  finally show ?thesis unfolding e .
qed

lemma dot_bound: "g \<in> set grad3_table \<Longrightarrow> \<bar>dot g a b\<bar> \<le> \<bar>a\<bar> + \<bar>b\<bar>"
  unfolding grad3_table_def dot_def by auto

lemma perlin2_blend_bound:
  assumes x: "0 \<le> x" "x \<le> 1" and y: "0 \<le> y" "y \<le> 1"
    and g: "gA \<in> set grad3_table" "gB \<in> set grad3_table"
           "gA1 \<in> set grad3_table" "gB1 \<in> set grad3_table"
  shows "\<bar>lerp (fade y)
           (lerp (fade x) (dot gA x y) (dot gB (x - 1) y))
           (lerp (fade x) (dot gA1 x (y - 1)) (dot gB1 (x - 1) (y - 1)))\<bar> \<le> 1"
proof -
  have u: "0 \<le> fade x" "fade x \<le> 1" using x by (simp_all add: fade_nonneg fade_le_one)
  have v: "0 \<le> fade y" "fade y \<le> 1" using y by (simp_all add: fade_nonneg fade_le_one)
  have a: "\<bar>dot gA x y\<bar> \<le> x + y" using dot_bound[OF g(1), of x y] x y by simp
  have b: "\<bar>dot gB (x - 1) y\<bar> \<le> (1 - x) + y" using dot_bound[OF g(2), of "x - 1" y] x y by simp
  have c: "\<bar>dot gA1 x (y - 1)\<bar> \<le> x + (1 - y)" using dot_bound[OF g(3), of x "y - 1"] x y by simp
  have d: "\<bar>dot gB1 (x - 1) (y - 1)\<bar> \<le> (1 - x) + (1 - y)"
    using dot_bound[OF g(4), of "x - 1" "y - 1"] x y by simp
  have lo: "\<bar>lerp (fade x) (dot gA x y) (dot gB (x - 1) y)\<bar> \<le> lerp (fade x) (x + y) ((1 - x) + y)"
    by (rule lerp_abs[OF u a b])
  have hi: "\<bar>lerp (fade x) (dot gA1 x (y - 1)) (dot gB1 (x - 1) (y - 1))\<bar>
              \<le> lerp (fade x) (x + (1 - y)) ((1 - x) + (1 - y))"
    by (rule lerp_abs[OF u c d])
  have "\<bar>lerp (fade y)
           (lerp (fade x) (dot gA x y) (dot gB (x - 1) y))
           (lerp (fade x) (dot gA1 x (y - 1)) (dot gB1 (x - 1) (y - 1)))\<bar>
        \<le> lerp (fade y) (lerp (fade x) (x + y) ((1 - x) + y))
                          (lerp (fade x) (x + (1 - y)) ((1 - x) + (1 - y)))"
    by (rule lerp_abs[OF v lo hi])
  also have "\<dots> = lerp (fade x) x (1 - x) + lerp (fade y) y (1 - y)"
    by (simp add: lerp_def algebra_simps)
  also have "\<dots> \<le> 1" using fade_half[of x] fade_half[of y] by simp
  finally show ?thesis .
qed

section \<open>Building the grid\<close>

lemma points_loop_eq:
  "points_loop j n xs ys i acc = acc @ map (new_point xs ys i) [j..n]"
proof (induction j n xs ys i acc rule: points_loop.induct)
  case (1 j n xs ys i acc)
  show ?case
  proof (cases "j \<le> n")
    case True
    have "points_loop j n xs ys i acc = points_loop (j + 1) n xs ys i (acc @ [new_point xs ys i j])"
      using True by (subst points_loop.simps) simp
    also have "\<dots> = (acc @ [new_point xs ys i j]) @ map (new_point xs ys i) [j + 1..n]"
      by (rule "1.IH"[OF True])
    also have "\<dots> = acc @ map (new_point xs ys i) [j..n]"
    proof -
      have e: "[j..n] = j # [j + 1..n]" using True upto_rec1[of j n] by simp
      show ?thesis by (simp add: e)
    qed
    finally show ?thesis .
  next
    case False
    then show ?thesis by (subst points_loop.simps) simp
  qed
qed

lemma lines_loop_eq:
  "lines_loop i n m xs ys lns pths =
     (lns @ map (\<lambda>i. map (new_point xs ys i) [0..m]) [i..n], pths @ map (\<lambda>i. None) [i..n])"
proof (induction i n m xs ys lns pths rule: lines_loop.induct)
  case (1 i n m xs ys lns pths)
  show ?case
  proof (cases "i \<le> n")
    case True
    have "lines_loop i n m xs ys lns pths =
        lines_loop (i + 1) n m xs ys (lns @ [points_loop 0 m xs ys i []]) (pths @ [None])"
      using True by (subst lines_loop.simps) simp
    also have "\<dots> = ((lns @ [points_loop 0 m xs ys i []]) @ map (\<lambda>i. map (new_point xs ys i) [0..m]) [i + 1..n],
                     (pths @ [None]) @ map (\<lambda>i. None) [i + 1..n])"
      by (rule "1.IH"[OF True])
    also have "\<dots> = (lns @ map (\<lambda>i. map (new_point xs ys i) [0..m]) [i..n], pths @ map (\<lambda>i. None) [i..n])"
    proof -
      have e: "[i..n] = i # [i + 1..n]" using True upto_rec1[of i n] by simp
      show ?thesis by (simp add: e points_loop_eq)
    qed
    finally show ?thesis .
  next
    case False
    then show ?thesis by (subst lines_loop.simps) simp
  qed
qed

lemma setLines_lines:
  "lines (setLines s) =
     map (\<lambda>i. map (new_point
                      ((r_width (bounding s) - 12 * of_int \<lceil>(r_width (bounding s) + 200) / 12\<rceil>) / 2)
                      ((r_height (bounding s) - 36 * of_int \<lceil>(r_height (bounding s) + 60) / 36\<rceil>) / 2) i)
                 [0..\<lceil>(r_height (bounding s) + 60) / 36\<rceil>])
         [0..\<lceil>(r_width (bounding s) + 200) / 12\<rceil>]"
  by (simp add: setLines_def Let_def lines_loop_eq xGap_def yGap_def)

lemma setLines_paths:
  "paths (setLines s) = map (\<lambda>i. None) [0..\<lceil>(r_width (bounding s) + 200) / 12\<rceil>]"
  by (simp add: setLines_def Let_def lines_loop_eq xGap_def yGap_def)

lemma setLines_other:
  "mouse (setLines s) = mouse s" "noise (setLines s) = noise s"
  "isVisible (setLines s) = isVisible s" "bounding (setLines s) = bounding s"
  by (simp_all add: setLines_def Let_def case_prod_beta)

lemma onResize_lines_length:
  "length (lines (onResize rect s)) = nat (\<lceil>(r_width rect + 200) / 12\<rceil> + 1)"
  by (simp add: onResize_def setLines_lines setSize_def)

lemma onResize_line_length:
  "line \<in> set (lines (onResize rect s)) \<Longrightarrow> length line = nat (\<lceil>(r_height rect + 60) / 36\<rceil> + 1)"
  by (auto simp: onResize_def setLines_lines setSize_def)

lemma grid_geometry_eq:
  "grid_geometry w h =
     Some (\<lceil>(w + 200) / 12\<rceil>, \<lceil>(h + 60) / 36\<rceil>,
           (w - 12 * of_int \<lceil>(w + 200) / 12\<rceil>) / 2,
           (h - 36 * of_int \<lceil>(h + 60) / 36\<rceil>) / 2)"
  by (simp add: grid_geometry_def checked_div_def xGap_def yGap_def Let_def)

lemma setLines_geometry:
  "grid_geometry (r_width (bounding s)) (r_height (bounding s)) = Some (nl, np, x0, y0) \<Longrightarrow>
   (lines (setLines s), paths (setLines s)) = lines_loop 0 nl np x0 y0 [] []"
  by (auto simp: grid_geometry_eq setLines_def Let_def xGap_def yGap_def case_prod_beta)

lemma onResize_point:
  assumes "i < length (lines (onResize rect s))" "j < length (lines (onResize rect s) ! i)"
  shows "lines (onResize rect s) ! i ! j =
     new_point ((r_width rect - 12 * of_int \<lceil>(r_width rect + 200) / 12\<rceil>) / 2)
               ((r_height rect - 36 * of_int \<lceil>(r_height rect + 60) / 36\<rceil>) / 2) (int i) (int j)"
proof -
  define tl where "tl = \<lceil>(r_width rect + 200) / 12\<rceil>"
  define tp where "tp = \<lceil>(r_height rect + 60) / 36\<rceil>"
  define xs where "xs = (r_width rect - 12 * of_int tl) / 2"
  define ys where "ys = (r_height rect - 36 * of_int tp) / 2"
  have L: "lines (onResize rect s) = map (\<lambda>i. map (new_point xs ys i) [0..tp]) [0..tl]"
    by (simp add: onResize_def setLines_lines setSize_def tl_def tp_def xs_def ys_def)
  have i: "i < length [0..tl]" using assms(1) unfolding L by simp
  then have i': "0 + int i \<le> tl" by simp
  have li: "lines (onResize rect s) ! i = map (new_point xs ys (int i)) [0..tp]"
    unfolding L using i nth_upto[OF i'] by simp
  have j: "j < length [0..tp]" using assms(2) unfolding li by simp
  then have j': "0 + int j \<le> tp" by simp
  show ?thesis
    unfolding li xs_def[symmetric] ys_def[symmetric] tl_def[symmetric] tp_def[symmetric]
    using j nth_upto[OF j'] by simp
qed

lemma setLines_shape:
  "map length (lines (setLines s)) =
     replicate (nat (\<lceil>(r_width (bounding s) + 200) / 12\<rceil> + 1))
               (nat (\<lceil>(r_height (bounding s) + 60) / 36\<rceil> + 1))"
  by (simp add: setLines_lines map_replicate_const comp_def)

section \<open>The frame update\<close>

lemma forEach_length: "length (fst (forEach f xs)) = length xs"
  by (induction xs) (auto simp: case_prod_beta Let_def)

lemma forEach_shape: "map length (fst (forEach (forEach f) xss)) = map length xss"
  by (induction xss) (auto simp: case_prod_beta Let_def forEach_length)

lemma forEach_all:
  assumes "\<And>x. P x \<Longrightarrow> P (fst (f x))"
  shows "list_all P xs \<Longrightarrow> list_all P (fst (forEach f xs))"
  using assms by (induction xs) (auto simp: case_prod_beta Let_def)

lemma forEach_all_done:
  assumes "\<And>x. snd (f x) \<Longrightarrow> Q (fst (f x))"
  shows "snd (forEach f xs) \<Longrightarrow> list_all Q (fst (forEach f xs))"
  using assms by (induction xs) (auto simp: case_prod_beta Let_def split: if_splits)

lemma movePoint_cases:
  "movePoint nz m t p = (p, False) \<or>
   (\<exists>w c. movePoint nz m t p = (p\<lparr>wave := w, cursor := c\<rparr>, True) \<and>
      - 80 \<le> cursor_x c \<and> cursor_x c \<le> 80 \<and> - 80 \<le> cursor_y c \<and> cursor_y c \<le> 80)"
proof (cases "perlin2 nz ((pt_x p + t * 0.015) * 0.002) ((pt_y p + t * 0.008) * 0.002)")
  case None
  then show ?thesis by (simp add: movePoint_def)
next
  case (Some nv)
  show ?thesis
    unfolding movePoint_def Some option.case Let_def
    by (intro disjI2 exI conjI) (rule refl, simp_all)
qed

lemma movePoint_done_ok: "snd (movePoint nz m t p) \<Longrightarrow> cursor_ok (fst (movePoint nz m t p))"
  using movePoint_cases[of nz m t p] by (auto simp: cursor_ok_def)

lemma movePoint_ok: "cursor_ok p \<Longrightarrow> cursor_ok (fst (movePoint nz m t p))"
  using movePoint_cases[of nz m t p] by (auto simp: cursor_ok_def)

lemma movePoints_ok:
  "list_all (list_all cursor_ok) (lines s) \<Longrightarrow>
   list_all (list_all cursor_ok) (lines (fst (movePoints t s)))"
  by (auto simp: movePoints_def case_prod_beta Let_def intro!: forEach_all movePoint_ok)

lemma movePoints_done_ok:
  "snd (movePoints t s) \<Longrightarrow> list_all (list_all cursor_ok) (lines (fst (movePoints t s)))"
  by (auto simp: movePoints_def case_prod_beta Let_def intro!: forEach_all_done movePoint_done_ok)

lemma movePoints_other:
  "mouse (fst (movePoints t s)) = mouse s" "noise (fst (movePoints t s)) = noise s"
  "isVisible (fst (movePoints t s)) = isVisible s" "bounding (fst (movePoints t s)) = bounding s"
  "paths (fst (movePoints t s)) = paths s"
  by (simp_all add: movePoints_def case_prod_beta Let_def)

lemma movePoints_shape: "map length (lines (fst (movePoints t s))) = map length (lines s)"
  by (simp add: movePoints_def case_prod_beta Let_def forEach_shape)

lemma drawLines_other:
  "mouse (fst (drawLines s)) = mouse s" "noise (fst (drawLines s)) = noise s"
  "isVisible (fst (drawLines s)) = isVisible s" "bounding (fst (drawLines s)) = bounding s"
  "lines (fst (drawLines s)) = lines s"
  by (simp_all add: drawLines_def case_prod_beta Let_def)

lemma tick_lines:
  "lines (fst (tick t s)) =
     (if isVisible s then lines (fst (movePoints t (s\<lparr>mouse := tick_mouse (mouse s)\<rparr>))) else lines s)"
  by (simp add: tick_def Let_def case_prod_beta drawLines_other)

lemma tick_mouse_state:
  "mouse (fst (tick t s)) = (if isVisible s then tick_mouse (mouse s) else mouse s)"
  by (simp add: tick_def Let_def case_prod_beta drawLines_other movePoints_other)

lemma tick_other:
  "noise (fst (tick t s)) = noise s" "isVisible (fst (tick t s)) = isVisible s"
  "bounding (fst (tick t s)) = bounding s"
  by (simp_all add: tick_def Let_def case_prod_beta drawLines_other movePoints_other)

lemma tick_ok:
  "list_all (list_all cursor_ok) (lines s) \<Longrightarrow>
   list_all (list_all cursor_ok) (lines (fst (tick t s)))"
  by (simp add: tick_lines movePoints_ok)

lemma tick_shape: "map length (lines (fst (tick t s))) = map length (lines s)"
  by (simp add: tick_lines movePoints_shape)

lemma setLines_ok: "list_all (list_all cursor_ok) (lines (setLines s))"
  by (simp add: setLines_lines list_all_iff cursor_ok_def new_point_def)

lemma updateMousePosition_other:
  "lines (updateMousePosition x y sc s) = lines s" "noise (updateMousePosition x y sc s) = noise s"
  "isVisible (updateMousePosition x y sc s) = isVisible s"
  "bounding (updateMousePosition x y sc s) = bounding s"
  by (simp_all add: updateMousePosition_def Let_def)

lemma handle_ok:
  "list_all (list_all cursor_ok) (lines s) \<Longrightarrow> list_all (list_all cursor_ok) (lines (handle e s))"
  by (cases e)
     (auto simp: onResize_def setLines_ok tick_ok updateMousePosition_other split: list.splits)

lemma run_ok:
  "list_all (list_all cursor_ok) (lines s) \<Longrightarrow> list_all (list_all cursor_ok) (lines (run evs s))"
  unfolding run_def by (induction evs arbitrary: s) (auto intro: handle_ok)

lemma mounted_ok:
  "connectedCallback svg rect seed = Some s0 \<Longrightarrow> list_all (list_all cursor_ok) (lines s0)"
  by (auto simp: connectedCallback_def setLines_ok tick_ok split: if_splits)

lemma handle_noise: "noise (handle e s) = noise s"
  by (cases e)
     (auto simp: onResize_def setLines_other setSize_def tick_other updateMousePosition_other
           split: list.splits)

lemma run_noise: "noise (run evs s) = noise s"
  unfolding run_def by (induction evs arbitrary: s) (auto simp: handle_noise)

lemma tick_mouse_vs: "m_vs (tick_mouse m) \<le> 100"
  by (simp add: tick_mouse_def Let_def)

lemma handle_vs: "m_vs (mouse s) \<le> 100 \<Longrightarrow> m_vs (mouse (handle e s)) \<le> 100"
  by (cases e)
     (auto simp: onResize_def setLines_other setSize_def tick_mouse_state tick_mouse_vs
                 updateMousePosition_def Let_def split: list.splits)

lemma run_vs: "m_vs (mouse s) \<le> 100 \<Longrightarrow> m_vs (mouse (run evs s)) \<le> 100"
  unfolding run_def by (induction evs arbitrary: s) (auto intro: handle_vs)

lemma mounted_vs: "connectedCallback svg rect seed = Some s0 \<Longrightarrow> m_vs (mouse s0) \<le> 100"
  by (auto simp: connectedCallback_def tick_mouse_state tick_mouse_vs setLines_other
        new_AWaves_def setSize_def initial_mouse_def split: if_splits)

lemma handle_set:
  "\<not> pointer_event e \<Longrightarrow> m_set (mouse (handle e s)) = m_set (mouse s)"
  by (cases e)
     (auto simp: onResize_def setLines_other setSize_def tick_mouse_state tick_mouse_def Let_def
           split: list.splits)

lemma run_set:
  "\<forall>e\<in>set evs. \<not> pointer_event e \<Longrightarrow> m_set (mouse (run evs s)) = m_set (mouse s)"
  unfolding run_def by (induction evs arbitrary: s) (auto simp: handle_set)

lemma mounted_set: "connectedCallback svg rect seed = Some s0 \<Longrightarrow> \<not> m_set (mouse s0)"
  by (auto simp: connectedCallback_def tick_mouse_state tick_mouse_def Let_def setLines_other
        new_AWaves_def setSize_def initial_mouse_def split: if_splits)

lemma mounted_eq:
  "connectedCallback True rect seed = Some s0 \<longleftrightarrow> s0 = fst (tick 0 (setLines (new_AWaves rect seed)))"
  by (auto simp: connectedCallback_def)

lemma nth_by_shape:
  assumes "map length xss = replicate n m" "i < n" "j < m"
  shows "xss ! i \<in> set xss" "xss ! i ! j \<in> set (xss ! i)"
proof -
  have n: "length xss = n" using assms(1) by (metis length_map length_replicate)
  then show a: "xss ! i \<in> set xss" using assms(2) by simp
  have "length (xss ! i) = map length xss ! i" using n assms(2) by simp
  then have "length (xss ! i) = m" using assms by simp
  then show "xss ! i ! j \<in> set (xss ! i)" using assms(3) by simp
qed

lemma mounted_shape:
  "connectedCallback True rect seed = Some s0 \<Longrightarrow>
   map length (lines s0) =
     replicate (nat (\<lceil>(r_width rect + 200) / 12\<rceil> + 1)) (nat (\<lceil>(r_height rect + 60) / 36\<rceil> + 1))"
  by (simp add: mounted_eq tick_shape setLines_shape new_AWaves_def setSize_def)

lemma hypot_zero: "hypot 0 0 = 0"
  by (simp add: hypot_def)

lemma updateMousePosition_unset:
  assumes "\<not> m_set (mouse s)"
  shows "mouse (updateMousePosition x y scrollY s) =
     (mouse s)\<lparr>m_x := x - r_left (bounding s), m_y := y - r_top (bounding s) + scrollY,
               m_sx := x - r_left (bounding s), m_sy := y - r_top (bounding s) + scrollY,
               m_lx := x - r_left (bounding s), m_ly := y - r_top (bounding s) + scrollY,
               m_set := True\<rparr>"
  using assms by (simp add: updateMousePosition_def Let_def)

lemma updateMousePosition_set:
  assumes "m_set (mouse s)"
  shows "mouse (updateMousePosition x y scrollY s) =
     (mouse s)\<lparr>m_x := x - r_left (bounding s), m_y := y - r_top (bounding s) + scrollY\<rparr>"
  using assms by (simp add: updateMousePosition_def Let_def)

section \<open>Drawing\<close>

lemma line_loop_eq:
  "line_loop pts i len d =
     d @ concat (map (\<lambda>(k, p). line_to (moved p (int k \<noteq> int len - 1))) (enumerate i pts))"
  by (induction pts arbitrary: i d) (simp_all add: Let_def line_to_def)

lemma path_d_eq:
  assumes "points \<noteq> []"
  shows "path_d points =
     Some (move_to (moved (hd points) False)
           @ concat (map (\<lambda>(k, p). line_to (moved p (Suc k \<noteq> length points)))
                         (enumerate 0 points)))"
proof -
  have "int k \<noteq> int (length points) - 1 \<longleftrightarrow> Suc k \<noteq> length points" for k
    by auto
  then show ?thesis
    using assms by (cases points) (simp_all add: path_d_def Let_def line_loop_eq move_to_def)
qed

lemma digit_char_in: "d < 10 \<Longrightarrow> digit_char d \<in> set ''0123456789''"
  unfolding digit_char_def by (rule nth_mem) simp

lemma show_nat_chars: "set (show_nat n) \<subseteq> set ''0123456789''"
proof (induction n rule: show_nat.induct)
  case (1 n)
  show ?case
  proof (cases "n < 10")
    case True
    then show ?thesis using digit_char_in[of n] by (subst show_nat.simps) simp
  next
    case False
    have "n mod 10 < 10" by simp
    then show ?thesis
      using False "1.IH" digit_char_in[of "n mod 10"] by (subst show_nat.simps) simp
  qed
qed

lemma number_string_chars:
  assumes "c \<in> set (number_string r)"
  shows "c = CHR ''-'' \<or> c = CHR ''.'' \<or> c \<in> set ''0123456789''"
proof -
  define D where "D = set ''0123456789''"
  have 1: "set (show_nat n) \<subseteq> D" for n unfolding D_def by (rule show_nat_chars)
  have 2: "digit_char (k mod 10) \<in> D" for k unfolding D_def by (rule digit_char_in) simp
  have "c = CHR ''-'' \<or> c = CHR ''.'' \<or> c \<in> D"
    using assms 1 2 unfolding number_string_def Let_def by (auto split: if_splits)
  then show ?thesis unfolding D_def .
qed

lemma count_char_append: "count_char c (s @ t) = count_char c s + count_char c t"
  by (simp add: count_char_def)

lemma count_char_number:
  assumes "c \<noteq> CHR ''-''" "c \<noteq> CHR ''.''" "c \<notin> set ''0123456789''"
  shows "count_char c (number_string r) = 0"
  using number_string_chars[of _ r] assms
  unfolding count_char_def length_0_conv filter_empty_conv by blast

lemma count_L_number: "count_char CHR ''L'' (number_string r) = 0"
  by (rule count_char_number) simp_all

lemma count_M_number: "count_char CHR ''M'' (number_string r) = 0"
  by (rule count_char_number) simp_all

lemma count_line_to: "count_char CHR ''L'' (line_to c) = 1" "count_char CHR ''M'' (line_to c) = 0"
  unfolding line_to_def count_char_append count_L_number count_M_number
  by (simp_all add: count_char_def)

lemma count_move_to: "count_char CHR ''L'' (move_to c) = 0" "count_char CHR ''M'' (move_to c) = 1"
  unfolding move_to_def count_char_append count_L_number count_M_number
  by (simp_all add: count_char_def)

lemma count_char_concat:
  assumes "\<And>x. count_char c (f x) = n"
  shows "count_char c (concat (map f xs)) = n * length xs"
  by (induction xs) (simp_all add: count_char_append assms, simp add: count_char_def)

lemma count_concat_line_to:
  "count_char CHR ''L'' (concat (map (\<lambda>(k, p). line_to (g k p)) kps)) = length kps"
  "count_char CHR ''M'' (concat (map (\<lambda>(k, p). line_to (g k p)) kps)) = 0"
  using count_char_concat[of "CHR ''L''" "\<lambda>(k, p). line_to (g k p)" 1 kps]
        count_char_concat[of "CHR ''M''" "\<lambda>(k, p). line_to (g k p)" 0 kps]
  by (simp_all add: case_prod_beta count_line_to)

lemma moved_rounding:
  "co_x (moved p b) = of_int (js_round ((pt_x p + wave_x (wave p) + (if b then cursor_x (cursor p) else 0)) * 10)) / 10"
  "co_y (moved p b) = of_int (js_round ((pt_y p + wave_y (wave p) + (if b then cursor_y (cursor p) else 0)) * 10)) / 10"
  by (simp_all add: moved_def Let_def)

lemma js_round_tenth: "\<bar>of_int (js_round (x * 10)) / 10 - x\<bar> \<le> 1 / 20"
proof -
  have "of_int (js_round (x * 10)) \<le> x * 10 + 1 / 2" "x * 10 + 1 / 2 < of_int (js_round (x * 10)) + 1"
    unfolding js_round_def by linarith+
  then have a: "of_int (js_round (x * 10)) / 10 - x \<le> 1 / 20"
    and b: "- (of_int (js_round (x * 10)) / 10 - x) \<le> 1 / 20"
    by (simp_all add: field_simps)
  show ?thesis using a b by (rule abs_leI)
qed

lemma draw_loop_eq:
  "\<forall>l\<in>set lns. l \<noteq> [] \<Longrightarrow> i + length lns \<le> length pths \<Longrightarrow>
   draw_loop lns i pths = (take i pths @ map path_d lns @ drop (i + length lns) pths, True)"
proof (induction lns arbitrary: i pths)
  case Nil
  then show ?case by simp
next
  case (Cons l lns)
  from Cons.prems obtain d where d: "path_d l = Some d"
    by (cases l) (auto simp: path_d_def Let_def)
  have i: "i < length pths" using Cons.prems by simp
  have "draw_loop (l # lns) i pths = draw_loop lns (i + 1) (pths[i := Some d])"
    using i by (simp add: d)
  also have "\<dots> = (take (i + 1) (pths[i := Some d]) @ map path_d lns
                    @ drop (i + 1 + length lns) (pths[i := Some d]), True)"
    using Cons.prems by (intro Cons.IH) auto
  also have "take (i + 1) (pths[i := Some d]) = take i pths @ [Some d]"
    using i by (simp add: take_Suc_conv_app_nth)
  also have "drop (i + 1 + length lns) (pths[i := Some d]) = drop (i + length (l # lns)) pths"
    by simp
  finally show ?case by (simp add: d)
qed

lemma drawLines_paths:
  assumes "\<forall>l\<in>set (lines s). l \<noteq> []" "length (paths s) = length (lines s)"
  shows "drawLines s = (s\<lparr>paths := map path_d (lines s)\<rparr>, True)"
  using draw_loop_eq[of "lines s" 0 "paths s"] assms
  by (simp add: drawLines_def)

lemma show_nat_digit: "n < 10 \<Longrightarrow> show_nat n = [digit_char n]"
  by (subst show_nat.simps) simp

lemma show_nat_more: "10 \<le> n \<Longrightarrow> show_nat n = show_nat (n div 10) @ [digit_char (n mod 10)]"
  by (subst show_nat.simps) simp

lemma number_string_0: "number_string 0 = ''0''"
  by (simp add: number_string_def show_nat_digit digit_char_def)

lemma number_string_5: "number_string 5 = ''5''"
  by (simp add: number_string_def show_nat_digit digit_char_def)

lemma number_string_36: "number_string 36 = ''36''"
  by (simp add: number_string_def show_nat_digit show_nat_more digit_char_def)

section \<open>Claims about the noise generator\<close>

text \<open>
  C1. For every construction seed in \<open>[0, 1)\<close> and every pair \<open>(x, y)\<close>, the
  noise sample \<open>perlin2(x, y)\<close> returns (no table or gradient lookup fails) and the
  value lies in the closed interval \<open>[-1, 1]\<close>.
\<close>

theorem perlin2_range:
  assumes s: "0 \<le> seed" "seed < 1"
  shows "\<exists>r. perlin2 (Noise_constructor seed) x y = Some r \<and> - 1 \<le> r \<and> r \<le> 1"
proof -
  let ?n = "Noise_constructor seed"
  define X where "X = floor_and_255 x"
  define Y where "Y = floor_and_255 y"
  define xf where "xf = x - of_int \<lfloor>x\<rfloor>"
  define yf where "yf = y - of_int \<lfloor>y\<rfloor>"
  have X: "0 \<le> X" "X \<le> 255" and Y: "0 \<le> Y" "Y \<le> 255"
    using floor_and_255_range[of x] floor_and_255_range[of y] by (simp_all add: X_def Y_def)
  have xf: "0 \<le> xf" "xf \<le> 1" and yf: "0 \<le> yf" "yf \<le> 1"
    unfolding xf_def yf_def by linarith+
  obtain pX where pX: "arr_get (perm ?n) X = Some pX" "0 \<le> pX" "pX \<le> 255"
    using perm_lookup[OF s, of X] X by auto
  obtain pX1 where pX1: "arr_get (perm ?n) (X + 1) = Some pX1" "0 \<le> pX1" "pX1 \<le> 255"
    using perm_lookup[OF s, of "X + 1"] X by auto
  obtain gA where gA: "corner_grad ?n (pX + Y) = Some gA" "gA \<in> set grad3_table"
    using corner_grad_lookup[OF s, of "pX + Y"] pX Y by auto
  obtain gB where gB: "corner_grad ?n (pX1 + Y) = Some gB" "gB \<in> set grad3_table"
    using corner_grad_lookup[OF s, of "pX1 + Y"] pX1 Y by auto
  obtain gA1 where gA1: "corner_grad ?n (pX + Y + 1) = Some gA1" "gA1 \<in> set grad3_table"
    using corner_grad_lookup[OF s, of "pX + Y + 1"] pX Y by auto
  obtain gB1 where gB1: "corner_grad ?n (pX1 + Y + 1) = Some gB1" "gB1 \<in> set grad3_table"
    using corner_grad_lookup[OF s, of "pX1 + Y + 1"] pX1 Y by auto
  have val: "perlin2 ?n x y =
      Some (lerp (fade yf)
              (lerp (fade xf) (dot gA xf yf) (dot gB (xf - 1) yf))
              (lerp (fade xf) (dot gA1 xf (yf - 1)) (dot gB1 (xf - 1) (yf - 1))))"
    unfolding perlin2_def Let_def X_def[symmetric] Y_def[symmetric] xf_def[symmetric]
      yf_def[symmetric]
    by (simp add: pX pX1 gA gB gA1 gB1)
  show ?thesis
    using perlin2_blend_bound[OF xf yf gA(2) gB(2) gA1(2) gB1(2)] unfolding val by auto
qed

theorem perlin2_range_witness:
  "(0::real) \<le> 1 / 2 \<and> (1 / 2 :: real) < 1 \<and>
   (\<exists>r. perlin2 (Noise_constructor (1 / 2)) (1001 / 4) (- 7 / 3) = Some r \<and> - 1 \<le> r \<and> r \<le> 1)"
  using perlin2_range [of "1 / 2" "1001 / 4" "- 7 / 3"] by simp

text \<open>
  C5. The table is claimed to be the doubling of a linear-congruential shuffle of
  \<open>0..255\<close>, its 256 base entries a permutation of \<open>0..255\<close>. The constructor does
  not build one. At seed \<open>1/2\<close> the fill loop stores \<open>seed / 2147483647\<close> back into
  the running seed, so from the second round on \<open>floor(seed * 256)\<close> is 0; the shuffle
  then swaps with slot 0 only. Slots 0 to 254 hold 0 and slot 255 holds 128: the base
  entries are not distinct.
\<close>

theorem permutation_table_at_half:
  "\<lfloor>js_rem (1 / 2 * 16807) 2147483647 / 2147483647 * 256\<rfloor> = 0
   \<and> take 255 (perm (Noise_constructor (1 / 2))) = replicate 255 (Some 0)
   \<and> perm (Noise_constructor (1 / 2)) ! 255 = Some 128
   \<and> \<not> distinct (take 256 (perm (Noise_constructor (1 / 2))))"
proof -
  have s: "(0::real) \<le> 1 / 2" "(1 / 2 :: real) \<le> 499" by simp_all
  note t = Noise_constructor_tables [OF s]
  have r: "js_rem (1 / 2 * 16807) 2147483647 = 1 / 2 * 16807"
    by (rule js_rem_small) simp_all
  have z: "\<lfloor>js_rem (1 / 2 * 16807) 2147483647 / 2147483647 * 256\<rfloor> = 0"
    unfolding r by (simp add: floor_eq_iff)
  have a: "perm (Noise_constructor (1 / 2)) ! 0 = Some 0" using t(5) by simp
  have b: "perm (Noise_constructor (1 / 2)) ! 1 = Some 0" using t(5) by simp
  have e: "perm (Noise_constructor (1 / 2)) ! 255 = Some 128" using t(5) by simp
  have f: "take 255 (perm (Noise_constructor (1 / 2))) = replicate 255 (Some 0)"
  proof (rule nth_equalityI)
    show "length (take 255 (perm (Noise_constructor (1 / 2)))) = length (replicate 255 (Some (0::int)))"
      using t(3) by simp
  next
    fix i assume "i < length (take 255 (perm (Noise_constructor (1 / 2))))"
    then have i: "i < 255" by simp
    then have "i < 512" by simp
    then have "perm (Noise_constructor (1 / 2)) ! i
        = Some (if int i mod 256 = 255 then \<lfloor>(1 / 2 :: real) * 256\<rfloor> else 0)"
      using t(5) by blast
    moreover have "int i mod 256 \<noteq> 255" using i by simp
    ultimately show "take 255 (perm (Noise_constructor (1 / 2))) ! i = replicate 255 (Some 0) ! i"
      using i by simp
  qed
  have "take 256 (perm (Noise_constructor (1 / 2))) ! 0 = take 256 (perm (Noise_constructor (1 / 2))) ! 1"
    using a b by simp
  moreover have "length (take 256 (perm (Noise_constructor (1 / 2)))) = 256" using t(3) by simp
  ultimately have c: "\<not> distinct (take 256 (perm (Noise_constructor (1 / 2))))"
    using nth_eq_iff_index_eq [of "take 256 (perm (Noise_constructor (1 / 2)))" 0 1] by auto
  show ?thesis using z f e c by (intro conjI)
qed

section \<open>Claims about the grid\<close>

text \<open>
  C2, as the code has it. After rebuilding the grid for a container of width \<open>w > 0\<close>
  and height \<open>h > 0\<close>, the grid holds exactly \<open>ceil((w + 200) / 12) + 1\<close> lines, and
  every line holds the same number of points, exactly \<open>ceil((h + 60) / 36) + 1\<close>: both
  loops run from 0 up to and including the count.
\<close>

theorem setLines_counts:
  assumes "0 < r_width rect" "0 < r_height rect"
  shows "int (length (lines (onResize rect s))) = \<lceil>(r_width rect + 200) / 12\<rceil> + 1
       \<and> (\<forall>line \<in> set (lines (onResize rect s)).
             int (length line) = \<lceil>(r_height rect + 60) / 36\<rceil> + 1)"
proof -
  have "0 \<le> (r_width rect + 200) / 12" "0 \<le> (r_height rect + 60) / 36"
    using assms by simp_all
  then have "0 \<le> \<lceil>(r_width rect + 200) / 12\<rceil>" "0 \<le> \<lceil>(r_height rect + 60) / 36\<rceil>"
    by (simp_all add: le_ceiling_iff) 
  then show ?thesis
    by (auto simp: onResize_lines_length onResize_line_length)
qed

theorem setLines_counts_witness:
  "(0::real) < 1000 \<and> (0::real) < 800
   \<and> length (lines (onResize \<lparr>r_left = 0, r_top = 0, r_width = 1000, r_height = 800\<rparr>
                 (new_AWaves \<lparr>r_left = 0, r_top = 0, r_width = 300, r_height = 200\<rparr> (1 / 2)))) = 101
   \<and> length (lines (onResize \<lparr>r_left = 0, r_top = 0, r_width = 1000, r_height = 800\<rparr>
                 (new_AWaves \<lparr>r_left = 0, r_top = 0, r_width = 300, r_height = 200\<rparr> (1 / 2))) ! 0) = 25"
proof -
  let ?s = "onResize \<lparr>r_left = 0, r_top = 0, r_width = 1000, r_height = 800\<rparr>
                 (new_AWaves \<lparr>r_left = 0, r_top = 0, r_width = 300, r_height = 200\<rparr> (1 / 2))"
  have c: "int (length (lines ?s)) = 101 \<and> (\<forall>line \<in> set (lines ?s). int (length line) = 25)"
    using setLines_counts [of "\<lparr>r_left = 0, r_top = 0, r_width = 1000, r_height = 800\<rparr>"
        "new_AWaves \<lparr>r_left = 0, r_top = 0, r_width = 300, r_height = 200\<rparr> (1 / 2)"]
    by simp
  then have n: "length (lines ?s) = 101" by simp
  then have "lines ?s ! 0 \<in> set (lines ?s)" by (intro nth_mem) simp
  with c have "int (length (lines ?s ! 0)) = 25" by blast
  with n show ?thesis by simp
qed

text \<open>
  Without the closing line the count is wrong: a container of 1000 by 800 gets 101 lines,
  not \<open>ceil(1200 / 12) = 100\<close>.
\<close>

theorem setLines_counts_counterexample:
  "int (length (lines (onResize \<lparr>r_left = 0, r_top = 0, r_width = 1000, r_height = 800\<rparr>
                         (new_AWaves \<lparr>r_left = 0, r_top = 0, r_width = 300, r_height = 200\<rparr> (1 / 2)))))
     \<noteq> \<lceil>(1000 + 200) / (12 :: real)\<rceil>"
  by (simp add: onResize_lines_length)

text \<open>
  C8. Immediately after a rebuild of the grid (as a resize triggers it), the cursor state of
  every point is zero, whatever the state before the rebuild was.
\<close>

theorem rebuild_resets_cursor:
  "\<forall>line \<in> set (lines (onResize rect s)). \<forall>p \<in> set line.
     cursor p = \<lparr>cursor_x = 0, cursor_y = 0, cursor_vx = 0, cursor_vy = 0\<rparr>"
  by (auto simp: onResize_def setLines_lines new_point_def)

theorem rebuild_resets_cursor_witness:
  "cursor (lines (onResize \<lparr>r_left = 0, r_top = 0, r_width = 1000, r_height = 800\<rparr>
                   (run [MouseMove 500 400 0, Frame 16]
                      (the (connectedCallback True
                              \<lparr>r_left = 0, r_top = 0, r_width = 300, r_height = 200\<rparr> (1 / 2))))) ! 3 ! 2)
     = \<lparr>cursor_x = 0, cursor_y = 0, cursor_vx = 0, cursor_vy = 0\<rparr>"
proof -
  let ?r = "\<lparr>r_left = 0, r_top = 0, r_width = 1000, r_height = 800\<rparr>"
  let ?s = "run [MouseMove 500 400 0, Frame 16]
              (the (connectedCallback True \<lparr>r_left = 0, r_top = 0, r_width = 300, r_height = 200\<rparr> (1 / 2)))"
  have "length (lines (onResize ?r ?s)) = 101" by (simp add: onResize_lines_length)
  then have l: "lines (onResize ?r ?s) ! 3 \<in> set (lines (onResize ?r ?s))"
    by (intro nth_mem) simp
  then have "length (lines (onResize ?r ?s) ! 3) = 25"
    using onResize_line_length [of "lines (onResize ?r ?s) ! 3" ?r ?s] by simp
  then have p: "lines (onResize ?r ?s) ! 3 ! 2 \<in> set (lines (onResize ?r ?s) ! 3)"
    by (intro nth_mem) simp
  show ?thesis using rebuild_resets_cursor [of ?r ?s] l p by blast
qed

text \<open>
  C9, as the code has it. A rebuild, for every container size and so for a zero or negative
  dimension too, divides by no zero: each of its four divisions has a nonzero divisor, and
  the line count, point count and start offsets are the numbers the formulas give. The
  grid then has \<open>max(0, ceil((w + 200) / 12) + 1)\<close> lines of
  \<open>max(0, ceil((h + 60) / 36) + 1)\<close> points each, point \<open>j\<close> of line \<open>i\<close> at
  \<open>(xStart + 12 i, yStart + 36 j)\<close>, and it is empty exactly when \<open>w \<le> -212\<close>.
\<close>

theorem degenerate_rebuild:
  "grid_geometry (r_width rect) (r_height rect) =
       Some (\<lceil>(r_width rect + 200) / 12\<rceil>, \<lceil>(r_height rect + 60) / 36\<rceil>,
             (r_width rect - 12 * of_int \<lceil>(r_width rect + 200) / 12\<rceil>) / 2,
             (r_height rect - 36 * of_int \<lceil>(r_height rect + 60) / 36\<rceil>) / 2)
   \<and> (lines (onResize rect s), paths (onResize rect s)) =
         lines_loop 0 \<lceil>(r_width rect + 200) / 12\<rceil> \<lceil>(r_height rect + 60) / 36\<rceil>
           ((r_width rect - 12 * of_int \<lceil>(r_width rect + 200) / 12\<rceil>) / 2)
           ((r_height rect - 36 * of_int \<lceil>(r_height rect + 60) / 36\<rceil>) / 2) [] []
   \<and> length (lines (onResize rect s)) = nat (\<lceil>(r_width rect + 200) / 12\<rceil> + 1)
   \<and> (\<forall>line \<in> set (lines (onResize rect s)).
           length line = nat (\<lceil>(r_height rect + 60) / 36\<rceil> + 1))
   \<and> (\<forall>i j. i < length (lines (onResize rect s)) \<longrightarrow> j < length (lines (onResize rect s) ! i) \<longrightarrow>
           pt_x (lines (onResize rect s) ! i ! j) =
             (r_width rect - 12 * of_int \<lceil>(r_width rect + 200) / 12\<rceil>) / 2 + 12 * real i
         \<and> pt_y (lines (onResize rect s) ! i ! j) =
             (r_height rect - 36 * of_int \<lceil>(r_height rect + 60) / 36\<rceil>) / 2 + 36 * real j)
   \<and> (lines (onResize rect s) = [] \<longleftrightarrow> r_width rect \<le> - 212)"
proof -
  have g: "grid_geometry (r_width rect) (r_height rect) =
       Some (\<lceil>(r_width rect + 200) / 12\<rceil>, \<lceil>(r_height rect + 60) / 36\<rceil>,
             (r_width rect - 12 * of_int \<lceil>(r_width rect + 200) / 12\<rceil>) / 2,
             (r_height rect - 36 * of_int \<lceil>(r_height rect + 60) / 36\<rceil>) / 2)"
    by (rule grid_geometry_eq)
  have b: "bounding (setSize rect s) = rect" by (simp add: setSize_def)
  have l: "(lines (onResize rect s), paths (onResize rect s)) =
         lines_loop 0 \<lceil>(r_width rect + 200) / 12\<rceil> \<lceil>(r_height rect + 60) / 36\<rceil>
           ((r_width rect - 12 * of_int \<lceil>(r_width rect + 200) / 12\<rceil>) / 2)
           ((r_height rect - 36 * of_int \<lceil>(r_height rect + 60) / 36\<rceil>) / 2) [] []"
    unfolding onResize_def using setLines_geometry [of "setSize rect s", unfolded b, OF g] .
  have e: "lines (onResize rect s) = [] \<longleftrightarrow> r_width rect \<le> - 212"
  proof -
    have "lines (onResize rect s) = [] \<longleftrightarrow> \<lceil>(r_width rect + 200) / 12\<rceil> + 1 \<le> 0"
      using onResize_lines_length[of rect s] by (metis length_0_conv nat_le_0 nat_0_iff)
    also have "\<dots> \<longleftrightarrow> \<lceil>(r_width rect + 200) / 12\<rceil> \<le> - 1" by linarith
    also have "\<dots> \<longleftrightarrow> (r_width rect + 200) / 12 \<le> - 1" by (simp add: ceiling_le_iff)
    also have "\<dots> \<longleftrightarrow> r_width rect \<le> - 212" by (simp add: field_simps) linarith
    finally show ?thesis .
  qed
  have n: "length (lines (onResize rect s)) = nat (\<lceil>(r_width rect + 200) / 12\<rceil> + 1)"
    by (rule onResize_lines_length)
  have m: "\<forall>line \<in> set (lines (onResize rect s)).
           length line = nat (\<lceil>(r_height rect + 60) / 36\<rceil> + 1)"
    by (simp add: onResize_line_length)
  have c: "\<forall>i j. i < length (lines (onResize rect s)) \<longrightarrow> j < length (lines (onResize rect s) ! i) \<longrightarrow>
           pt_x (lines (onResize rect s) ! i ! j) =
             (r_width rect - 12 * of_int \<lceil>(r_width rect + 200) / 12\<rceil>) / 2 + 12 * real i
         \<and> pt_y (lines (onResize rect s) ! i ! j) =
             (r_height rect - 36 * of_int \<lceil>(r_height rect + 60) / 36\<rceil>) / 2 + 36 * real j"
    by (simp add: onResize_point new_point_def xGap_def yGap_def)
  show ?thesis using g l n m c e by (intro conjI)
qed

theorem degenerate_rebuild_witness:
  "grid_geometry 0 0 = Some (17, 2, - 102, - 36)
   \<and> length (lines (onResize \<lparr>r_left = 0, r_top = 0, r_width = 0, r_height = 0\<rparr>
                 (new_AWaves \<lparr>r_left = 0, r_top = 0, r_width = 300, r_height = 200\<rparr> (1 / 2)))) = 18
   \<and> length (lines (onResize \<lparr>r_left = 0, r_top = 0, r_width = 0, r_height = 0\<rparr>
                 (new_AWaves \<lparr>r_left = 0, r_top = 0, r_width = 300, r_height = 200\<rparr> (1 / 2))) ! 1) = 3
   \<and> pt_x (lines (onResize \<lparr>r_left = 0, r_top = 0, r_width = 0, r_height = 0\<rparr>
                 (new_AWaves \<lparr>r_left = 0, r_top = 0, r_width = 300, r_height = 200\<rparr> (1 / 2))) ! 1 ! 2) = - 90
   \<and> pt_y (lines (onResize \<lparr>r_left = 0, r_top = 0, r_width = 0, r_height = 0\<rparr>
                 (new_AWaves \<lparr>r_left = 0, r_top = 0, r_width = 300, r_height = 200\<rparr> (1 / 2))) ! 1 ! 2) = 36"
proof -
  let ?r = "\<lparr>r_left = 0, r_top = 0, r_width = 0, r_height = 0\<rparr>"
  let ?s = "new_AWaves \<lparr>r_left = 0, r_top = 0, r_width = 300, r_height = 200\<rparr> (1 / 2)"
  note t = degenerate_rebuild [of ?r ?s]
  have g: "grid_geometry 0 0 = Some (17, 2, - 102, - 36)"
    using t [THEN conjunct1] by simp
  have n: "length (lines (onResize ?r ?s)) = 18"
    using t [THEN conjunct2, THEN conjunct2, THEN conjunct1] by simp
  have m: "\<forall>line \<in> set (lines (onResize ?r ?s)). length line = 3"
    using t [THEN conjunct2, THEN conjunct2, THEN conjunct2, THEN conjunct1] by simp
  have "lines (onResize ?r ?s) ! 1 \<in> set (lines (onResize ?r ?s))"
    using n by (intro nth_mem) simp
  with m have k: "length (lines (onResize ?r ?s) ! 1) = 3" by blast
  have c: "\<forall>i j. i < length (lines (onResize ?r ?s)) \<longrightarrow> j < length (lines (onResize ?r ?s) ! i) \<longrightarrow>
           pt_x (lines (onResize ?r ?s) ! i ! j) = - 102 + 12 * real i
         \<and> pt_y (lines (onResize ?r ?s) ! i ! j) = - 36 + 36 * real j"
    using t [THEN conjunct2, THEN conjunct2, THEN conjunct2, THEN conjunct2, THEN conjunct1] by simp
  have "pt_x (lines (onResize ?r ?s) ! 1 ! 2) = - 102 + 12 * real 1
      \<and> pt_y (lines (onResize ?r ?s) ! 1 ! 2) = - 36 + 36 * real 2"
  proof -
    have i: "1 < length (lines (onResize ?r ?s))" using n by simp
    have j: "2 < length (lines (onResize ?r ?s) ! 1)" using k by simp
    show ?thesis using c [rule_format, OF i j] .
  qed
  then have x: "pt_x (lines (onResize ?r ?s) ! 1 ! 2) = - 90" and y: "pt_y (lines (onResize ?r ?s) ! 1 ! 2) = 36"
    by simp_all
  show ?thesis using g n k x y by (intro conjI)
qed

text \<open>
  The grid of a degenerate container is in general neither empty nor a single line: width
  and height 0 give 18 lines.
\<close>

theorem degenerate_rebuild_counterexample:
  "\<not> length (lines (onResize \<lparr>r_left = 0, r_top = 0, r_width = 0, r_height = 0\<rparr>
                     (new_AWaves \<lparr>r_left = 0, r_top = 0, r_width = 300, r_height = 200\<rparr> (1 / 2)))) \<le> 1"
  by (simp add: onResize_lines_length)

section \<open>Claims about the frame update\<close>

text \<open>
  C4. After mounting and any sequence of events (pointer moves, resizes, visibility changes
  and any number of frames), the cursor displacement of every point of the grid lies in
  \<open>[-80, 80]\<close> on both axes.
\<close>

theorem cursor_clamped:
  assumes "connectedCallback True rect seed = Some s0"
  shows "\<forall>line \<in> set (lines (run evs s0)). \<forall>p \<in> set line.
           - 80 \<le> cursor_x (cursor p) \<and> cursor_x (cursor p) \<le> 80
         \<and> - 80 \<le> cursor_y (cursor p) \<and> cursor_y (cursor p) \<le> 80"
  using run_ok [OF mounted_ok [OF assms], of evs]
  by (simp add: list_all_iff cursor_ok_def)

theorem cursor_clamped_witness:
  "connectedCallback True \<lparr>r_left = 0, r_top = 0, r_width = 1000, r_height = 800\<rparr> (1 / 2)
     = Some (fst (tick 0 (setLines (new_AWaves \<lparr>r_left = 0, r_top = 0, r_width = 1000, r_height = 800\<rparr> (1 / 2)))))
   \<and> - 80 \<le> cursor_x (cursor (lines (run [MouseMove 500 400 0, Frame 16, MouseMove (- 100000) 250000 0, Frame 32]
                 (fst (tick 0 (setLines (new_AWaves \<lparr>r_left = 0, r_top = 0, r_width = 1000, r_height = 800\<rparr> (1 / 2)))))) ! 50 ! 12))
   \<and> cursor_x (cursor (lines (run [MouseMove 500 400 0, Frame 16, MouseMove (- 100000) 250000 0, Frame 32]
                 (fst (tick 0 (setLines (new_AWaves \<lparr>r_left = 0, r_top = 0, r_width = 1000, r_height = 800\<rparr> (1 / 2)))))) ! 50 ! 12)) \<le> 80"
proof -
  let ?r = "\<lparr>r_left = 0, r_top = 0, r_width = 1000, r_height = 800\<rparr>"
  let ?s0 = "fst (tick 0 (setLines (new_AWaves ?r (1 / 2))))"
  let ?evs = "[MouseMove 500 400 0, Frame 16, MouseMove (- 100000) 250000 0, Frame 32]"
  have m: "connectedCallback True ?r (1 / 2) = Some ?s0" by (simp add: mounted_eq)
  have "map length (lines (run ?evs ?s0)) = map length (lines ?s0)"
    by (simp add: run_def tick_shape updateMousePosition_other)
  also have "\<dots> = replicate 101 25" using mounted_shape [OF m] by simp
  finally have sh: "map length (lines (run ?evs ?s0)) = replicate 101 25" .
  have a: "lines (run ?evs ?s0) ! 50 \<in> set (lines (run ?evs ?s0))"
    and b: "lines (run ?evs ?s0) ! 50 ! 12 \<in> set (lines (run ?evs ?s0) ! 50)"
    using nth_by_shape [OF sh, of 50 12] by simp_all
  show ?thesis using cursor_clamped [OF m, of ?evs] a b m by blast
qed

text \<open>
  C10. The frame update leaves the smoothed velocity at most 100, whatever the mouse state
  was, so the influence radius \<open>max(175, vs)\<close> that the point update then computes is
  exactly 175; the same holds in every state the component reaches after mounting.
\<close>

theorem influence_radius_constant:
  assumes "connectedCallback True rect seed = Some s0"
  shows "(\<forall>m. m_vs (tick_mouse m) \<le> 100 \<and> influence_radius (tick_mouse m) = 175)
       \<and> m_vs (mouse (run evs s0)) \<le> 100
       \<and> influence_radius (mouse (run evs s0)) = 175"
proof -
  have a: "m_vs (tick_mouse m) \<le> 100 \<and> influence_radius (tick_mouse m) = 175" for m
    using tick_mouse_vs [of m] by (simp add: influence_radius_def)
  have "m_vs (mouse (run evs s0)) \<le> 100"
    by (rule run_vs [OF mounted_vs [OF assms]])
  then show ?thesis using a by (simp add: influence_radius_def)
qed

theorem influence_radius_constant_witness:
  "connectedCallback True \<lparr>r_left = 0, r_top = 0, r_width = 1000, r_height = 800\<rparr> (1 / 2)
     = Some (fst (tick 0 (setLines (new_AWaves \<lparr>r_left = 0, r_top = 0, r_width = 1000, r_height = 800\<rparr> (1 / 2)))))
   \<and> influence_radius (mouse (run [MouseMove 500 400 0, Frame 16, MouseMove (- 100000) 250000 0, Frame 32]
         (fst (tick 0 (setLines (new_AWaves \<lparr>r_left = 0, r_top = 0, r_width = 1000, r_height = 800\<rparr> (1 / 2))))))) = 175"
proof -
  let ?r = "\<lparr>r_left = 0, r_top = 0, r_width = 1000, r_height = 800\<rparr>"
  let ?s0 = "fst (tick 0 (setLines (new_AWaves ?r (1 / 2))))"
  have m: "connectedCallback True ?r (1 / 2) = Some ?s0" by (simp add: mounted_eq)
  show ?thesis
    using influence_radius_constant [OF m, of "[MouseMove 500 400 0, Frame 16, MouseMove (- 100000) 250000 0, Frame 32]"] m
    by blast
qed

text \<open>
  C7, as the code has it. On the first pointer-position update after mounting (whatever
  frames, resizes and visibility changes came before it), the smoothed position and the
  last-frame position are set to the raw container-local pointer position, so the velocity
  the next frame computes from that update is 0. The flag that arms this is cleared at
  mounting only: it stays set across a later rebuild of the grid.
\<close>

theorem first_update_snaps:
  assumes "connectedCallback True rect seed = Some s0"
    and "\<forall>e \<in> set evs. \<not> pointer_event e"
    and "s = updateMousePosition x y scrollY (run evs s0)"
  shows "m_x (mouse s) = x - r_left (bounding (run evs s0))
       \<and> m_y (mouse s) = y - r_top (bounding (run evs s0)) + scrollY
       \<and> m_sx (mouse s) = m_x (mouse s) \<and> m_sy (mouse s) = m_y (mouse s)
       \<and> m_lx (mouse s) = m_x (mouse s) \<and> m_ly (mouse s) = m_y (mouse s)
       \<and> m_v (tick_mouse (mouse s)) = 0
       \<and> m_set (mouse s) \<and> m_set (mouse (onResize rect' s))"
proof -
  have "\<not> m_set (mouse (run evs s0))"
    using run_set [OF assms(2), of s0] mounted_set [OF assms(1)] by simp
  then have "mouse s =
     (mouse (run evs s0))\<lparr>m_x := x - r_left (bounding (run evs s0)),
               m_y := y - r_top (bounding (run evs s0)) + scrollY,
               m_sx := x - r_left (bounding (run evs s0)),
               m_sy := y - r_top (bounding (run evs s0)) + scrollY,
               m_lx := x - r_left (bounding (run evs s0)),
               m_ly := y - r_top (bounding (run evs s0)) + scrollY,
               m_set := True\<rparr>"
    unfolding assms(3) by (rule updateMousePosition_unset)
  then show ?thesis
    by (simp add: tick_mouse_def Let_def hypot_zero onResize_def setLines_other setSize_def)
qed

theorem first_update_snaps_witness:
  "connectedCallback True \<lparr>r_left = 20, r_top = 30, r_width = 1000, r_height = 800\<rparr> (1 / 2)
     = Some (fst (tick 0 (setLines (new_AWaves \<lparr>r_left = 20, r_top = 30, r_width = 1000, r_height = 800\<rparr> (1 / 2)))))
   \<and> \<not> pointer_event (Frame 16)
   \<and> \<not> pointer_event (Resize \<lparr>r_left = 5, r_top = 7, r_width = 640, r_height = 480\<rparr>)
   \<and> \<not> pointer_event (Frame 32)
   \<and> m_lx (mouse (updateMousePosition 500 400 100
        (run [Frame 16, Resize \<lparr>r_left = 5, r_top = 7, r_width = 640, r_height = 480\<rparr>, Frame 32]
          (fst (tick 0 (setLines (new_AWaves \<lparr>r_left = 20, r_top = 30, r_width = 1000, r_height = 800\<rparr> (1 / 2)))))))) = 495
   \<and> m_sy (mouse (updateMousePosition 500 400 100
        (run [Frame 16, Resize \<lparr>r_left = 5, r_top = 7, r_width = 640, r_height = 480\<rparr>, Frame 32]
          (fst (tick 0 (setLines (new_AWaves \<lparr>r_left = 20, r_top = 30, r_width = 1000, r_height = 800\<rparr> (1 / 2)))))))) = 493"
proof -
  let ?r = "\<lparr>r_left = 20, r_top = 30, r_width = 1000, r_height = 800\<rparr>"
  let ?r2 = "\<lparr>r_left = 5, r_top = 7, r_width = 640, r_height = 480\<rparr>"
  let ?s0 = "fst (tick 0 (setLines (new_AWaves ?r (1 / 2))))"
  let ?evs = "[Frame 16, Resize ?r2, Frame 32]"
  have m: "connectedCallback True ?r (1 / 2) = Some ?s0" by (simp add: mounted_eq)
  have e: "\<forall>e \<in> set ?evs. \<not> pointer_event e" by simp
  have b: "bounding (run ?evs ?s0) = ?r2"
    by (simp add: run_def tick_other onResize_def setLines_other setSize_def)
  show ?thesis
    using first_update_snaps [OF m e refl, of 500 400 100] m e unfolding b by simp
qed

text \<open>
  A rebuild does not arm the snap again: after a move to \<open>(10, 10)\<close>, a resize and a
  move to \<open>(500, 500)\<close>, the last-frame position is still 10.
\<close>

theorem first_update_snaps_counterexample:
  "m_lx (mouse (run [MouseMove 10 10 0,
                     Resize \<lparr>r_left = 0, r_top = 0, r_width = 640, r_height = 480\<rparr>,
                     MouseMove 500 500 0]
                 (the (connectedCallback True \<lparr>r_left = 0, r_top = 0, r_width = 1000, r_height = 800\<rparr> (1 / 2)))))
   \<noteq> m_x (mouse (run [MouseMove 10 10 0,
                     Resize \<lparr>r_left = 0, r_top = 0, r_width = 640, r_height = 480\<rparr>,
                     MouseMove 500 500 0]
                 (the (connectedCallback True \<lparr>r_left = 0, r_top = 0, r_width = 1000, r_height = 800\<rparr> (1 / 2)))))"
proof -
  let ?r = "\<lparr>r_left = 0, r_top = 0, r_width = 1000, r_height = 800\<rparr>"
  let ?r2 = "\<lparr>r_left = 0, r_top = 0, r_width = 640, r_height = 480\<rparr>"
  let ?s0 = "the (connectedCallback True ?r (1 / 2))"
  have m: "connectedCallback True ?r (1 / 2) = Some ?s0" by (simp add: connectedCallback_def)
  have u: "\<not> m_set (mouse ?s0)" by (rule mounted_set [OF m])
  let ?s1 = "updateMousePosition 10 10 0 ?s0"
  have b0: "bounding ?s0 = ?r"
    by (simp add: connectedCallback_def tick_other setLines_other new_AWaves_def setSize_def)
  have m1: "m_set (mouse ?s1)" "m_lx (mouse ?s1) = 10"
    using u by (simp_all add: updateMousePosition_unset b0)
  let ?s2 = "onResize ?r2 ?s1"
  have m2: "mouse ?s2 = mouse ?s1" "bounding ?s2 = ?r2"
    by (simp_all add: onResize_def setLines_other setSize_def)
  let ?s3 = "updateMousePosition 500 500 0 ?s2"
  have m3: "m_lx (mouse ?s3) = 10" "m_x (mouse ?s3) = 500"
    using m1 m2 by (simp_all add: updateMousePosition_set)
  have "run [MouseMove 10 10 0, Resize ?r2, MouseMove 500 500 0] ?s0 = ?s3"
    by (simp add: run_def)
  then show ?thesis using m3 by simp
qed

section \<open>Claims about the drawing\<close>

text \<open>
  C6, as the code has it. For every line with at least one point, the path string is one
  move-to command at the first point's position without the cursor offset, followed by
  exactly one line-to command per point of the line, the first point included; every
  point but the last is drawn with its cursor offset, the last without it; every
  coordinate is rounded to the nearest tenth (a multiple of \<open>1/10\<close>, at most \<open>1/20\<close>
  from the exact position).
\<close>

theorem path_commands:
  assumes "points \<noteq> []"
  shows "path_d points =
           Some (move_to (moved (hd points) False)
                 @ concat (map (\<lambda>(k, p). line_to (moved p (Suc k \<noteq> length points)))
                               (enumerate 0 points)))
       \<and> count_char CHR ''M'' (the (path_d points)) = 1
       \<and> count_char CHR ''L'' (the (path_d points)) = length points
       \<and> (\<forall>p b. co_x (moved p b) =
                   of_int (js_round ((pt_x p + wave_x (wave p)
                                       + (if b then cursor_x (cursor p) else 0)) * 10)) / 10
               \<and> co_y (moved p b) =
                   of_int (js_round ((pt_y p + wave_y (wave p)
                                       + (if b then cursor_y (cursor p) else 0)) * 10)) / 10
               \<and> \<bar>co_x (moved p b) - (pt_x p + wave_x (wave p)
                                       + (if b then cursor_x (cursor p) else 0))\<bar> \<le> 1 / 20
               \<and> \<bar>co_y (moved p b) - (pt_y p + wave_y (wave p)
                                       + (if b then cursor_y (cursor p) else 0))\<bar> \<le> 1 / 20)"
proof -
  note d = path_d_eq [OF assms]
  have m: "count_char CHR ''M'' (the (path_d points)) = 1"
    unfolding d option.sel count_char_append count_move_to count_concat_line_to by simp
  have l: "count_char CHR ''L'' (the (path_d points)) = length points"
    unfolding d option.sel count_char_append count_move_to count_concat_line_to by simp
  have r: "\<forall>p b. co_x (moved p b) =
                   of_int (js_round ((pt_x p + wave_x (wave p)
                                       + (if b then cursor_x (cursor p) else 0)) * 10)) / 10
               \<and> co_y (moved p b) =
                   of_int (js_round ((pt_y p + wave_y (wave p)
                                       + (if b then cursor_y (cursor p) else 0)) * 10)) / 10
               \<and> \<bar>co_x (moved p b) - (pt_x p + wave_x (wave p)
                                       + (if b then cursor_x (cursor p) else 0))\<bar> \<le> 1 / 20
               \<and> \<bar>co_y (moved p b) - (pt_y p + wave_y (wave p)
                                       + (if b then cursor_y (cursor p) else 0))\<bar> \<le> 1 / 20"
    unfolding moved_rounding using js_round_tenth by blast
  show ?thesis using d m l r by (intro conjI)
qed

theorem path_commands_witness:
  "[\<lparr>pt_x = 0, pt_y = 0, wave = \<lparr>wave_x = 0, wave_y = 0\<rparr>,
            cursor = \<lparr>cursor_x = 5, cursor_y = 0, cursor_vx = 0, cursor_vy = 0\<rparr>\<rparr>,
           \<lparr>pt_x = 0, pt_y = 36, wave = \<lparr>wave_x = 0, wave_y = 0\<rparr>,
            cursor = \<lparr>cursor_x = 5, cursor_y = 0, cursor_vx = 0, cursor_vy = 0\<rparr>\<rparr>] \<noteq> []
   \<and> count_char CHR ''L'' (the (path_d
          [\<lparr>pt_x = 0, pt_y = 0, wave = \<lparr>wave_x = 0, wave_y = 0\<rparr>,
            cursor = \<lparr>cursor_x = 5, cursor_y = 0, cursor_vx = 0, cursor_vy = 0\<rparr>\<rparr>,
           \<lparr>pt_x = 0, pt_y = 36, wave = \<lparr>wave_x = 0, wave_y = 0\<rparr>,
            cursor = \<lparr>cursor_x = 5, cursor_y = 0, cursor_vx = 0, cursor_vy = 0\<rparr>\<rparr>])) = 2
   \<and> count_char CHR ''M'' (the (path_d
          [\<lparr>pt_x = 0, pt_y = 0, wave = \<lparr>wave_x = 0, wave_y = 0\<rparr>,
            cursor = \<lparr>cursor_x = 5, cursor_y = 0, cursor_vx = 0, cursor_vy = 0\<rparr>\<rparr>,
           \<lparr>pt_x = 0, pt_y = 36, wave = \<lparr>wave_x = 0, wave_y = 0\<rparr>,
            cursor = \<lparr>cursor_x = 5, cursor_y = 0, cursor_vx = 0, cursor_vy = 0\<rparr>\<rparr>])) = 1"
proof -
  let ?ps = "[\<lparr>pt_x = 0, pt_y = 0, wave = \<lparr>wave_x = 0, wave_y = 0\<rparr>,
            cursor = \<lparr>cursor_x = 5, cursor_y = 0, cursor_vx = 0, cursor_vy = 0\<rparr>\<rparr>,
           \<lparr>pt_x = 0, pt_y = 36, wave = \<lparr>wave_x = 0, wave_y = 0\<rparr>,
            cursor = \<lparr>cursor_x = 5, cursor_y = 0, cursor_vx = 0, cursor_vy = 0\<rparr>\<rparr>]"
  have n: "?ps \<noteq> []" by simp
  note t = path_commands [OF n]
  have "count_char CHR ''M'' (the (path_d ?ps)) = 1"
    by (rule t [THEN conjunct2, THEN conjunct1])
  moreover have "count_char CHR ''L'' (the (path_d ?ps)) = length ?ps"
    by (rule t [THEN conjunct2, THEN conjunct2, THEN conjunct1])
  ultimately show ?thesis by simp
qed

text \<open>
  A line of two points whose first point is displaced by the cursor: the move-to is at the
  undisplaced position, and two line-to commands follow, not one.
\<close>

theorem path_commands_counterexample:
  "path_d [\<lparr>pt_x = 0, pt_y = 0, wave = \<lparr>wave_x = 0, wave_y = 0\<rparr>,
            cursor = \<lparr>cursor_x = 5, cursor_y = 0, cursor_vx = 0, cursor_vy = 0\<rparr>\<rparr>,
           \<lparr>pt_x = 0, pt_y = 36, wave = \<lparr>wave_x = 0, wave_y = 0\<rparr>,
            cursor = \<lparr>cursor_x = 5, cursor_y = 0, cursor_vx = 0, cursor_vy = 0\<rparr>\<rparr>]
     = Some ''M 0 0L 5 0L 0 36''
   \<and> count_char CHR ''L'' ''M 0 0L 5 0L 0 36'' \<noteq> length
         [\<lparr>pt_x = 0, pt_y = 0, wave = \<lparr>wave_x = 0, wave_y = 0\<rparr>,
            cursor = \<lparr>cursor_x = 5, cursor_y = 0, cursor_vx = 0, cursor_vy = 0\<rparr>\<rparr>,
           \<lparr>pt_x = 0, pt_y = 36, wave = \<lparr>wave_x = 0, wave_y = 0\<rparr>,
            cursor = \<lparr>cursor_x = 5, cursor_y = 0, cursor_vx = 0, cursor_vy = 0\<rparr>\<rparr>] - 1"
  by (simp add: path_d_def moved_def Let_def js_round_def number_string_0 number_string_5
        number_string_36 count_char_def)

end
